theory Spec2Isabelle
  imports Main
begin

section \<open>The two variants of polybar-pomo.go\<close>

text \<open>
  The source file \<^verbatim>\<open>polybar-pomo.go\<close> holds two variants of the program.
  \<^item> Variant A (lines 1 to 203): the durations come from the flags \<^verbatim>\<open>-w\<close> and \<^verbatim>\<open>-r\<close>,
    connection handlers send on three channels, and one \<^verbatim>\<open>select\<close> loop in \<^verbatim>\<open>main\<close>
    applies every mutation and prints the status. It has \<^verbatim>\<open>Inc\<close> and the commands
    \<^verbatim>\<open>inc\<close> and \<^verbatim>\<open>dec\<close>.
  \<^item> Variant B (lines 204 to 390): the durations are constants, the state carries a
    mutex, connection handlers call \<^verbatim>\<open>Pause\<close> and \<^verbatim>\<open>Toggle\<close> themselves, a goroutine
    \<^verbatim>\<open>Update\<close> serves the timer and the ticker, and \<^verbatim>\<open>main\<close> prints once per second.
  \<^verbatim>\<open>GetDuration\<close>, \<^verbatim>\<open>Toggle\<close> and \<^verbatim>\<open>String\<close> have the same body in both variants (variant B
  takes the lock first); they are modelled once, over a configuration that holds the two
  durations. What differs is modelled twice, the definitions of variant B carrying the
  suffix \<open>_B\<close>. The mutex itself has no counterpart in this sequential model: every
  operation is one atomic function from state to state.
\<close>

section \<open>Go's integers, durations and instants\<close>

text \<open>
  \<^verbatim>\<open>time.Duration\<close> is an \<^verbatim>\<open>int64\<close> count of nanoseconds. \<^verbatim>\<open>time.Time\<close> is modelled as
  the (unbounded) count of nanoseconds since Go's zero instant; the monotonic clock
  reading that \<^verbatim>\<open>time.Now()\<close> attaches is taken to agree with the wall clock. Every
  call of \<^verbatim>\<open>time.Now()\<close> is an argument \<open>now\<close> of the function that makes it.
\<close>

type_synonym Duration = int
type_synonym Time = int

definition Second :: Duration where
  "Second = 1000000000"

definition Minute :: Duration where
  "Minute = 60 * Second"

definition maxDuration :: Duration where
  "maxDuration = 2 ^ 63 - 1"

definition minDuration :: Duration where
  "minDuration = - (2 ^ 63)"

text \<open>Arithmetic on \<^verbatim>\<open>int64\<close> and on \<^verbatim>\<open>int\<close> (64 bits) wraps around.\<close>

definition wrap64 :: "int \<Rightarrow> int" where
  "wrap64 x = (x + 2 ^ 63) mod 2 ^ 64 - 2 ^ 63"

text \<open>Go's \<^verbatim>\<open>/\<close> and \<^verbatim>\<open>%\<close> on integers truncate towards zero.\<close>

definition quo :: "int \<Rightarrow> int \<Rightarrow> int" where
  "quo a b = sgn a * sgn b * (\<bar>a\<bar> div \<bar>b\<bar>)"

definition rem :: "int \<Rightarrow> int \<Rightarrow> int" where
  "rem a b = a - b * quo a b"

text \<open>\<^verbatim>\<open>t.Add(d)\<close>.\<close>

definition Time_Add :: "Time \<Rightarrow> Duration \<Rightarrow> Time" where
  "Time_Add t d = t + d"

text \<open>\<^verbatim>\<open>t.Sub(u)\<close>: the difference, saturated to the range of a \<^verbatim>\<open>Duration\<close>.\<close>

definition Time_Sub :: "Time \<Rightarrow> Time \<Rightarrow> Duration" where
  "Time_Sub t u =
     (let d = t - u
      in if maxDuration < d then maxDuration
         else if d < minDuration then minDuration
         else d)"

text \<open>
  \<^verbatim>\<open>lessThanHalf(x, y)\<close> of package \<^verbatim>\<open>time\<close> is \<^verbatim>\<open>uint64(x)+uint64(x) < uint64(y)\<close>; it is
  only called with \<open>0 \<le> x < y < 2 ^ 63\<close>, where the sum does not wrap.
\<close>

definition lessThanHalf :: "int \<Rightarrow> int \<Rightarrow> bool" where
  "lessThanHalf x y = (x + x < y)"

text \<open>
  \<^verbatim>\<open>t.Round(d)\<close> on an instant: the nearest multiple of \<open>d\<close> since the zero instant,
  halfway values rounded up.
\<close>

definition Time_Round :: "Time \<Rightarrow> Duration \<Rightarrow> Time" where
  "Time_Round t d =
     (if d \<le> 0 then t
      else let r = t mod d
           in if lessThanHalf r d then Time_Add t (- r) else Time_Add t (d - r))"

text \<open>
  \<^verbatim>\<open>d.Round(m)\<close> on a duration: the nearest multiple of \<open>m\<close>, halfway values rounded
  away from zero, the extreme duration when the result does not fit.
\<close>

definition Duration_Round :: "Duration \<Rightarrow> Duration \<Rightarrow> Duration" where
  "Duration_Round d m =
     (if m \<le> 0 then d
      else let r = rem d m
           in if d < 0
              then (let r' = - r
                    in if lessThanHalf r' m then wrap64 (d + r')
                       else (let d1 = wrap64 (d - m + r')
                             in if d1 < d then d1 else minDuration))
              else if lessThanHalf r m then wrap64 (d - r)
              else (let d1 = wrap64 (d + m - r)
                    in if d < d1 then d1 else maxDuration))"

text \<open>
  \<^verbatim>\<open>int(d.Minutes())\<close> and \<^verbatim>\<open>int(d.Seconds())\<close>. Go computes
  \<^verbatim>\<open>float64(d / unit) + float64(d % unit) / float64(unit)\<close> and the conversion to
  \<^verbatim>\<open>int\<close> truncates. \<^verbatim>\<open>String\<close> passes only a result of \<^verbatim>\<open>Round(time.Second)\<close>: a
  whole number of seconds, where the fraction is a multiple of one sixtieth, or an
  extreme duration, where the fraction is below nine tenths. The integer part is below
  \<open>2 ^ 34\<close> in absolute value, so the \<^verbatim>\<open>float64\<close> sum never reaches the next integer and
  the result is the truncated quotient.
\<close>

definition Minutes_int :: "Duration \<Rightarrow> int" where
  "Minutes_int d = quo d Minute"

definition Seconds_int :: "Duration \<Rightarrow> int" where
  "Seconds_int d = quo d Second"

section \<open>The timer state\<close>

type_synonym PomodoroStatus = int

definition Work :: PomodoroStatus where
  "Work = 0"

definition Rest :: PomodoroStatus where
  "Rest = 1"

text \<open>
  \<^verbatim>\<open>WorkDuration\<close> and \<^verbatim>\<open>RestDuration\<close>: package variables set once from the flags in
  variant A, constants in variant B.
\<close>

record config =
  WorkDuration :: Duration
  RestDuration :: Duration

definition flags :: "int \<Rightarrow> int \<Rightarrow> config" where
  "flags w r = \<lparr>WorkDuration = wrap64 (w * Minute), RestDuration = wrap64 (r * Minute)\<rparr>"

definition constants_B :: config where
  "constants_B = \<lparr>WorkDuration = 25 * Minute, RestDuration = 5 * Minute\<rparr>"

text \<open>
  The \<^verbatim>\<open>*time.Timer\<close> and the \<^verbatim>\<open>*time.Ticker\<close> are modelled by what was last asked of
  them: \<open>Some d\<close> after \<^verbatim>\<open>NewTimer(d)\<close>, \<^verbatim>\<open>NewTicker(d)\<close> or \<^verbatim>\<open>Reset(d)\<close>, \<open>None\<close> after
  \<^verbatim>\<open>Stop()\<close>. The field \<^verbatim>\<open>mu\<close> of variant B is left out.
\<close>

record PomodoroState =
  End :: Time
  Paused :: bool
  Status :: PomodoroStatus
  Ticker :: "Duration option"
  Timer :: "Duration option"

text \<open>A lookup in a Go map gives the zero value for a key that is absent.\<close>

definition GetDuration :: "config \<Rightarrow> PomodoroStatus \<Rightarrow> Duration" where
  "GetDuration cfg status =
     (case [Work \<mapsto> WorkDuration cfg, Rest \<mapsto> RestDuration cfg] status of
        None \<Rightarrow> 0
      | Some d \<Rightarrow> d)"

definition NewPomodoro :: "config \<Rightarrow> Time \<Rightarrow> PomodoroStatus \<Rightarrow> bool \<Rightarrow> PomodoroState" where
  "NewPomodoro cfg now status paused =
     (let duration = GetDuration cfg status;
          state = \<lparr>End = Time_Add now duration, Paused = paused, Status = status,
                   Ticker = Some Second, Timer = Some duration\<rparr>
      in if paused then state\<lparr>Timer := None\<rparr> else state)"

definition NewPomodoro_B :: "Time \<Rightarrow> PomodoroStatus \<Rightarrow> bool \<Rightarrow> PomodoroState" where
  "NewPomodoro_B now status paused =
     (let duration = GetDuration constants_B status;
          state = \<lparr>End = Time_Add now duration, Paused = paused, Status = status,
                   Ticker = Some Second, Timer = Some duration\<rparr>
      in if paused then state\<lparr>Timer := None\<rparr> else state\<lparr>Ticker := None\<rparr>)"

subsection \<open>Pause, Toggle, Inc\<close>

definition Pause :: "Time \<Rightarrow> PomodoroState \<Rightarrow> PomodoroState" where
  "Pause now state =
     (let state1 = (if Paused state
                    then state\<lparr>Timer := Some (Time_Sub (End state) now)\<rparr>
                    else state\<lparr>Timer := None\<rparr>)
      in state1\<lparr>Paused := \<not> Paused state1\<rparr>)"

definition Pause_B :: "Time \<Rightarrow> PomodoroState \<Rightarrow> PomodoroState" where
  "Pause_B now state =
     (let state1 = (if Paused state
                    then state\<lparr>Ticker := None, Timer := Some (Time_Sub (End state) now)\<rparr>
                    else state\<lparr>Ticker := Some (1 * Second), Timer := None\<rparr>)
      in state1\<lparr>Paused := \<not> Paused state1\<rparr>)"

definition Toggle :: "config \<Rightarrow> Time \<Rightarrow> PomodoroState \<Rightarrow> PomodoroState" where
  "Toggle cfg now state =
     (let nextStatus = rem (wrap64 (Status state + 1)) 2;
          duration = GetDuration cfg nextStatus
      in state\<lparr>Status := nextStatus, Timer := Some duration, End := Time_Add now duration\<rparr>)"

definition Inc :: "Time \<Rightarrow> Duration \<Rightarrow> PomodoroState \<Rightarrow> PomodoroState" where
  "Inc now increment state =
     (let remainingTime = wrap64 (Time_Sub (End state) now + increment);
          state1 = state\<lparr>End := Time_Round (Time_Add (End state) increment) Second\<rparr>
      in if \<not> Paused state1 then state1\<lparr>Timer := Some remainingTime\<rparr> else state1)"

subsection \<open>String\<close>

definition TomatoEmoji :: string where
  "TomatoEmoji = [CHR 0xF0, CHR 0x9F, CHR 0x8D, CHR 0x85]"

definition RestEmoji :: string where
  "RestEmoji = [CHR 0xF0, CHR 0x9F, CHR 0x8F, CHR 0x96]"

definition PauseEmoji :: string where
  "PauseEmoji = [CHR 0xE2, CHR 0x8F, CHR 0xB8]"

text \<open>
  The verb \<^verbatim>\<open>%02d\<close> of \<^verbatim>\<open>fmt.Sprintf\<close>: the decimal digits, padded with zeros on the
  left to a width of two, where a minus sign takes one place of the width.
\<close>

definition digit :: "nat \<Rightarrow> char" where
  "digit k = char_of (48 + k)"

fun decimal :: "nat \<Rightarrow> string" where
  "decimal n = (if n < 10 then [digit n] else decimal (n div 10) @ [digit (n mod 10)])"

declare decimal.simps [simp del]

definition zero_pad :: "nat \<Rightarrow> string \<Rightarrow> string" where
  "zero_pad w ds = replicate (w - length ds) (CHR ''0'') @ ds"

definition fmt_02d :: "int \<Rightarrow> string" where
  "fmt_02d n =
     (if n < 0 then CHR ''-'' # zero_pad 1 (decimal (nat (- n)))
      else zero_pad 2 (decimal (nat n)))"

text \<open>\<^verbatim>\<open>fmt.Sprintf("%s %02d:%02d", suffix, minutes, seconds)\<close>.\<close>

definition Sprintf :: "string \<Rightarrow> int \<Rightarrow> int \<Rightarrow> string" where
  "Sprintf suffix minutes seconds = suffix @ '' '' @ fmt_02d minutes @ '':'' @ fmt_02d seconds"

text \<open>The local variables of \<^verbatim>\<open>String\<close>, each as a function of the clock and the state.\<close>

definition suffix :: "PomodoroState \<Rightarrow> string" where
  "suffix state =
     (if Paused state then PauseEmoji
      else if Status state = Work then TomatoEmoji
      else RestEmoji)"

definition elapsedTime :: "Time \<Rightarrow> PomodoroState \<Rightarrow> Duration" where
  "elapsedTime now state = Duration_Round (Time_Sub (End state) now) Second"

definition minutes :: "Time \<Rightarrow> PomodoroState \<Rightarrow> int" where
  "minutes now state = Minutes_int (elapsedTime now state)"

definition seconds :: "Time \<Rightarrow> PomodoroState \<Rightarrow> int" where
  "seconds now state = Seconds_int (elapsedTime now state) - 60 * minutes now state"

definition String :: "Time \<Rightarrow> PomodoroState \<Rightarrow> string" where
  "String now state = Sprintf (suffix state) (minutes now state) (seconds now state)"

section \<open>The select loop of variant A\<close>

text \<open>
  What the \<^verbatim>\<open>select\<close> of \<^verbatim>\<open>main\<close> (lines 183 to 199) can receive: a tick, the expiry of
  the timer, or a value sent by a connection handler on one of the three channels.
\<close>

datatype event = TickerC | TimerC | pauseChannel | toggleChannel | incChannel Duration

definition select_case :: "config \<Rightarrow> Time \<Rightarrow> event \<Rightarrow> PomodoroState \<Rightarrow> PomodoroState" where
  "select_case cfg now ev state =
     (case ev of
        TickerC \<Rightarrow> if Paused state then Inc now (1 * Second) state else state
      | TimerC \<Rightarrow> if \<not> Paused state then Toggle cfg now state else state
      | pauseChannel \<Rightarrow> Pause now state
      | toggleChannel \<Rightarrow> Toggle cfg now state
      | incChannel inc \<Rightarrow> Inc now inc state)"

text \<open>
  The loop never ends; it is run on a finite list of arrivals. Each arrival carries the
  event and the two clock readings of the iteration: the one of the mutation and the
  one of \<^verbatim>\<open>String\<close>. The function returns the last state and the lines printed.
\<close>

fun main_loop :: "config \<Rightarrow> (event \<times> Time \<times> Time) list \<Rightarrow> PomodoroState \<Rightarrow> string list
    \<Rightarrow> PomodoroState \<times> string list" where
  "main_loop cfg [] state out = (state, out)"
| "main_loop cfg ((ev, now, now') # arrivals) state out =
     (let state' = select_case cfg now ev state;
          statusStr = String now' state'
      in main_loop cfg arrivals state' (out @ [statusStr]))"

section \<open>The goroutine Update of variant B\<close>

datatype event_B = TimerC_B | TickerC_B

definition Update_B :: "Time \<Rightarrow> event_B \<Rightarrow> PomodoroState \<Rightarrow> PomodoroState" where
  "Update_B now ev state =
     (case ev of
        TimerC_B \<Rightarrow> Toggle constants_B now state
      | TickerC_B \<Rightarrow> state\<lparr>End := Time_Add (End state) (1 * Second)\<rparr>)"

section \<open>The control channel\<close>

subsection \<open>strings.ToLower and strings.TrimSpace\<close>

text \<open>
  Both functions of Go's package \<^verbatim>\<open>strings\<close> work on bytes as long as the string is
  ASCII and hand over to the Unicode tables otherwise. The byte paths are modelled in
  full. The Unicode paths are library code that depends on tables: they are the three
  fields of a parameter, and every theorem below holds for each value of it.
\<close>

record unicode =
  Map_ToLower :: "string \<Rightarrow> string"
  TrimFunc_IsSpace :: "string \<Rightarrow> string"
  TrimRightFunc_IsSpace :: "string \<Rightarrow> string"

definition RuneSelf :: nat where
  "RuneSelf = 128"

definition is_ascii :: "char \<Rightarrow> bool" where
  "is_ascii c = ((of_char c :: nat) < RuneSelf)"

definition is_upper :: "char \<Rightarrow> bool" where
  "is_upper c = (of_char (CHR ''A'') \<le> (of_char c :: nat) \<and> (of_char c :: nat) \<le> of_char (CHR ''Z''))"

definition lower :: "char \<Rightarrow> char" where
  "lower c = (if is_upper c then char_of ((of_char c :: nat) + 32) else c)"

definition ToLower :: "unicode \<Rightarrow> string \<Rightarrow> string" where
  "ToLower U s =
     (if list_all is_ascii s
      then (if \<not> list_ex is_upper s then s else map lower s)
      else Map_ToLower U s)"

definition asciiSpace :: "char \<Rightarrow> bool" where
  "asciiSpace c =
     (c = CHR 0x09 \<or> c = CHR 0x0A \<or> c = CHR 0x0B \<or> c = CHR 0x0C \<or> c = CHR 0x0D \<or> c = CHR '' '')"

text \<open>The second loop of \<^verbatim>\<open>TrimSpace\<close>, on the reversed rest of the string.\<close>

fun trim_stop :: "unicode \<Rightarrow> string \<Rightarrow> string" where
  "trim_stop U [] = []"
| "trim_stop U (c # cs) =
     (if \<not> is_ascii c then TrimRightFunc_IsSpace U (rev (c # cs))
      else if asciiSpace c then trim_stop U cs
      else rev (c # cs))"

fun TrimSpace :: "unicode \<Rightarrow> string \<Rightarrow> string" where
  "TrimSpace U [] = []"
| "TrimSpace U (c # cs) =
     (if \<not> is_ascii c then TrimFunc_IsSpace U (c # cs)
      else if asciiSpace c then TrimSpace U cs
      else trim_stop U (rev (c # cs)))"

subsection \<open>One read of a connection\<close>

text \<open>
  A connection is what its one \<^verbatim>\<open>Read\<close> meets: a failure with its error text, or the
  bytes that the peer's message has delivered. \<^verbatim>\<open>conn.Read(buffer)\<close> fills at most the
  length of the buffer; a stream that ends with no byte delivered reads as \<^verbatim>\<open>EOF\<close>.
\<close>

datatype conn = Failing string | Delivering string

definition Read :: "conn \<Rightarrow> nat \<Rightarrow> string + string" where
  "Read c size_of_buffer =
     (case c of
        Failing err \<Rightarrow> Inl err
      | Delivering data \<Rightarrow> if data = [] then Inl ''EOF'' else Inr (take size_of_buffer data))"

text \<open>
  What a handler has done when it returns: the lines it printed on standard output, the
  bytes it wrote back on the connection, and its outcome: the values sent on the
  channels in variant A, the timer state in variant B.
\<close>

record 'a handled =
  printed :: "string list"
  written :: string
  outcome :: 'a

definition HandleRequest :: "unicode \<Rightarrow> conn \<Rightarrow> event list handled" where
  "HandleRequest U c =
     (case Read c 128 of
        Inl err \<Rightarrow> \<lparr>printed = [''Error reading: '' @ err], written = [], outcome = []\<rparr>
      | Inr buffer \<Rightarrow>
          (let message = TrimSpace U (ToLower U buffer)
           in \<lparr>printed = [], written = [],
               outcome =
                 (if message = ''pause'' then [pauseChannel]
                  else if message = ''toggle'' then [toggleChannel]
                  else if message = ''inc'' then [incChannel (5 * Second)]
                  else if message = ''dec'' then [incChannel (- 5 * Second)]
                  else [])\<rparr>))"

definition HandleRequest_B :: "unicode \<Rightarrow> conn \<Rightarrow> Time \<Rightarrow> PomodoroState \<Rightarrow> PomodoroState handled" where
  "HandleRequest_B U c now state =
     (case Read c 128 of
        Inl err \<Rightarrow> \<lparr>printed = [''Error reading: '' @ err], written = [], outcome = state\<rparr>
      | Inr buffer \<Rightarrow>
          (let message = TrimSpace U (ToLower U buffer)
           in \<lparr>printed = [], written = [],
               outcome =
                 (if message = ''pause'' then Pause_B now state
                  else if message = ''toggle'' then Toggle constants_B now state
                  else state)\<rparr>))"

text \<open>
  In variant A the state changes when the loop of \<^verbatim>\<open>main\<close> receives what the handler
  sent: the effect of one connection on the state is the \<^verbatim>\<open>select\<close> applied to each
  value sent.
\<close>

definition connection_effect :: "config \<Rightarrow> unicode \<Rightarrow> conn \<Rightarrow> Time \<Rightarrow> PomodoroState \<Rightarrow> PomodoroState" where
  "connection_effect cfg U c now state = fold (select_case cfg now) (outcome (HandleRequest U c)) state"

text \<open>The text a handler compares with the commands, when its read succeeds.\<close>

definition message :: "unicode \<Rightarrow> conn \<Rightarrow> string option" where
  "message U c =
     (case Read c 128 of
        Inl err \<Rightarrow> None
      | Inr buffer \<Rightarrow> Some (TrimSpace U (ToLower U buffer)))"

section \<open>Startup\<close>

text \<open>
  \<^verbatim>\<open>main\<close> up to its endless loop, as the list of the steps it takes, in order. The two
  calls that can fail are answered by the operating system: each either succeeds
  (\<open>None\<close>) or fails with an error text.
\<close>

definition SocketPath :: string where
  "SocketPath = ''/tmp/polybar-pomo''"

record os =
  RemoveAll_err :: "string option"
  ListenUnix_err :: "string option"

datatype step =
    flag_Parse
  | os_RemoveAll string
  | net_ListenUnix string
  | fmt_Println string
  | defer_listener_Close
  | defer_os_Remove string
  | go_accept_loop
  | call_NewPomodoro PomodoroStatus bool
  | go_Update
  | loop_select_and_print
  | loop_print_and_sleep
  | return

definition main :: "os \<Rightarrow> step list" where
  "main sys =
     [flag_Parse, os_RemoveAll SocketPath] @
     (case RemoveAll_err sys of
        Some err \<Rightarrow> [fmt_Println (''Error removing socket file: '' @ err), return]
      | None \<Rightarrow>
          [net_ListenUnix SocketPath] @
          (case ListenUnix_err sys of
             Some err \<Rightarrow> [fmt_Println (''Error listening: '' @ err), return]
           | None \<Rightarrow>
               [defer_listener_Close, defer_os_Remove SocketPath, go_accept_loop,
                call_NewPomodoro Work True, loop_select_and_print]))"

definition main_B :: "os \<Rightarrow> step list" where
  "main_B sys =
     [call_NewPomodoro Work False, go_Update, os_RemoveAll SocketPath] @
     (case RemoveAll_err sys of
        Some err \<Rightarrow> [fmt_Println (''Error removing socket file: '' @ err), return]
      | None \<Rightarrow>
          [net_ListenUnix SocketPath] @
          (case ListenUnix_err sys of
             Some err \<Rightarrow> [fmt_Println (''Error listening: '' @ err), return]
           | None \<Rightarrow> [defer_listener_Close, go_accept_loop, loop_print_and_sleep]))"

text \<open>The steps that run the scheduler or the render loop, and the reports of a failure.\<close>

fun starts_scheduler_or_render :: "step \<Rightarrow> bool" where
  "starts_scheduler_or_render go_Update = True"
| "starts_scheduler_or_render loop_select_and_print = True"
| "starts_scheduler_or_render loop_print_and_sleep = True"
| "starts_scheduler_or_render _ = False"

fun starts_render :: "step \<Rightarrow> bool" where
  "starts_render loop_select_and_print = True"
| "starts_render loop_print_and_sleep = True"
| "starts_render _ = False"

fun is_report :: "step \<Rightarrow> bool" where
  "is_report (fmt_Println line) = True"
| "is_report _ = False"

section \<open>The output format, as the specification words it\<close>

text \<open>
  The specification describes the line as an icon, a space and \<^verbatim>\<open>MM:SS\<close>: the time
  left, rounded to the nearest second, as two digits of minutes and two digits of
  seconds. \<open>Render_spec\<close> follows these words; \<open>has_format\<close> tests a line for the shape.
\<close>

definition two_digits :: "nat \<Rightarrow> string" where
  "two_digits n = [digit (n div 10), digit (n mod 10)]"

definition remaining_spec :: "Time \<Rightarrow> PomodoroState \<Rightarrow> int" where
  "remaining_spec now state = (End state - now + Second div 2) div Second"

definition icon_spec :: "PomodoroState \<Rightarrow> string" where
  "icon_spec state =
     (if Paused state then PauseEmoji
      else if Status state = Work then TomatoEmoji
      else RestEmoji)"

definition Render_spec :: "Time \<Rightarrow> PomodoroState \<Rightarrow> string" where
  "Render_spec now state =
     icon_spec state @ '' '' @ two_digits (nat (remaining_spec now state div 60)) @ '':''
       @ two_digits (nat (remaining_spec now state mod 60))"

definition is_digit :: "char \<Rightarrow> bool" where
  "is_digit c = (48 \<le> (of_char c :: nat) \<and> (of_char c :: nat) \<le> 57)"

fun is_MM_SS :: "string \<Rightarrow> bool" where
  "is_MM_SS [m1, m2, c, s1, s2] =
     (is_digit m1 \<and> is_digit m2 \<and> c = CHR '':'' \<and> is_digit s1 \<and> is_digit s2)"
| "is_MM_SS _ = False"

definition has_format :: "string \<Rightarrow> string \<Rightarrow> bool" where
  "has_format icon line =
     (take (length icon) line = icon \<and>
      (case drop (length icon) line of
         [] \<Rightarrow> False
       | sp # field \<Rightarrow> sp = CHR '' '' \<and> is_MM_SS field))"

section \<open>Sample inputs\<close>

text \<open>
  A clock reading of the year 2024, a quarter of a second past the whole second, in
  nanoseconds since Go's zero instant; and a value for the Unicode paths, which no
  ASCII input reaches.
\<close>

definition boot :: Time where
  "boot = 63839664000 * Second + 250000000"

text \<open>
  Thirteen \<^verbatim>\<open>dec\<close> commands in the first hundredth of a second after the start, each
  received by the loop of variant A one millisecond after the one before and printed
  one microsecond later.
\<close>

definition thirteen_decs :: "(event \<times> Time \<times> Time) list" where
  "thirteen_decs =
     map (\<lambda>i. (incChannel (- 5 * Second), boot + i * 1000000, boot + i * 1000000 + 1000)) [1..13]"

definition no_tables :: unicode where
  "no_tables =
     \<lparr>Map_ToLower = (\<lambda>s. s), TrimFunc_IsSpace = (\<lambda>s. s), TrimRightFunc_IsSpace = (\<lambda>s. s)\<rparr>"

section \<open>Rounding an instant to the second\<close>

lemma Second_pos: "0 < Second"
  by (simp add: Second_def)

lemma Time_Round_Second:
  "Time_Round t Second =
     (if 2 * (t mod Second) < Second then t - t mod Second else t + (Second - t mod Second))"
  using Second_pos by (simp add: Time_Round_def Let_def lessThanHalf_def Time_Add_def)

lemma Time_Round_multiple: "Time_Round t Second mod Second = 0"
proof -
  have a: "(t - t mod Second) mod Second = 0"
    by (simp add: minus_mod_eq_mult_div)
  have "(t + (Second - t mod Second)) mod Second = (Second + (t - t mod Second)) mod Second"
    by (simp add: algebra_simps)
  also have "\<dots> = 0"
    by (simp add: minus_mod_eq_mult_div)
  finally show ?thesis
    using a by (simp add: Time_Round_Second)
qed

lemma Time_Round_near: "2 * \<bar>Time_Round t Second - t\<bar> \<le> Second"
proof -
  have "0 \<le> t mod Second" "t mod Second < Second"
    using Second_pos by simp_all
  then show ?thesis
    by (simp add: Time_Round_Second)
qed

lemma Time_Round_shift: "Time_Round (t + k * Second) Second = Time_Round t Second + k * Second"
  by (simp add: Time_Round_Second)

lemma Time_Round_whole: "t mod Second = 0 \<Longrightarrow> Time_Round t Second = t"
  using Second_pos by (simp add: Time_Round_Second)

section \<open>Toggle\<close>

lemma next_Status:
  "Status s = Work \<or> Status s = Rest \<Longrightarrow>
     Status (Toggle cfg now s) = (if Status s = Work then Rest else Work)"
  by (auto simp: Toggle_def Let_def Work_def Rest_def wrap64_def rem_def quo_def)

lemma End_Toggle: "End (Toggle cfg now s) = now + GetDuration cfg (Status (Toggle cfg now s))"
  by (simp add: Toggle_def Let_def Time_Add_def)

lemma GetDuration_Work: "GetDuration cfg Work = WorkDuration cfg"
  by (simp add: GetDuration_def Work_def Rest_def)

lemma GetDuration_Rest: "GetDuration cfg Rest = RestDuration cfg"
  by (simp add: GetDuration_def Work_def Rest_def)

lemma Work_neq_Rest: "Work \<noteq> Rest"
  by (simp add: Work_def Rest_def)

lemma fold_Toggle:
  "Status s = Work \<or> Status s = Rest \<Longrightarrow>
     Status (fold (Toggle cfg) nows s) =
       (if even (length nows) then Status s else if Status s = Work then Rest else Work)"
proof (induction nows arbitrary: s)
  case Nil
  then show ?case by simp
next
  case (Cons now nows)
  have step: "Status (Toggle cfg now s) = (if Status s = Work then Rest else Work)"
    using Cons.prems by (rule next_Status)
  then have "Status (Toggle cfg now s) = Work \<or> Status (Toggle cfg now s) = Rest"
    by simp
  from Cons.IH [OF this] show ?case
    using step Cons.prems Work_neq_Rest by auto
qed

text \<open>
  Claim C2. \<^verbatim>\<open>Toggle\<close> switches the phase to the other one, computed as
  \<^verbatim>\<open>(Status + 1) % 2\<close>, and sets \<^verbatim>\<open>End\<close> to the clock reading plus the configured
  duration of the new phase, whether or not the timer is paused. From a state whose
  phase is \<^verbatim>\<open>Work\<close> or \<^verbatim>\<open>Rest\<close>, two calls restore the phase, and after any sequence of
  calls the phase is the first one after an even number of calls and the other one
  after an odd number. The two variants share the function; the theorem holds for
  every configuration, the constants of variant B included.
\<close>

theorem Toggle_alternates:
  assumes "Status s = Work \<or> Status s = Rest"
  shows "Status (Toggle cfg now s) = (if Status s = Work then Rest else Work)
    \<and> End (Toggle cfg now s) =
        now + (if Status s = Work then RestDuration cfg else WorkDuration cfg)
    \<and> Paused (Toggle cfg now s) = Paused s
    \<and> Status (Toggle cfg now' (Toggle cfg now s)) = Status s
    \<and> Status (fold (Toggle cfg) nows s) =
        (if even (length nows) then Status s else if Status s = Work then Rest else Work)"
proof -
  have one: "Status (Toggle cfg now s) = (if Status s = Work then Rest else Work)"
    using assms by (rule next_Status)
  then have "Status (Toggle cfg now s) = Work \<or> Status (Toggle cfg now s) = Rest"
    by simp
  then have "Status (Toggle cfg now' (Toggle cfg now s)) =
      (if Status (Toggle cfg now s) = Work then Rest else Work)"
    by (rule next_Status)
  then have two: "Status (Toggle cfg now' (Toggle cfg now s)) = Status s"
    using one assms Work_neq_Rest by auto
  have "End (Toggle cfg now s) =
      now + (if Status s = Work then RestDuration cfg else WorkDuration cfg)"
    using one by (simp add: End_Toggle GetDuration_Work GetDuration_Rest)
  moreover have "Paused (Toggle cfg now s) = Paused s"
    by (simp add: Toggle_def Let_def)
  ultimately show ?thesis
    using one two fold_Toggle [OF assms] by simp
qed

theorem Toggle_alternates_witness:
  "Status (Toggle (flags 25 5) (boot + Second) (NewPomodoro (flags 25 5) boot Work True)) = Rest
   \<and> End (Toggle (flags 25 5) (boot + Second) (NewPomodoro (flags 25 5) boot Work True))
       = boot + Second + 5 * Minute
   \<and> Status (Toggle (flags 25 5) (boot + 2 * Second)
        (Toggle (flags 25 5) (boot + Second) (NewPomodoro (flags 25 5) boot Work True))) = Work
   \<and> Status (fold (Toggle (flags 25 5)) [boot + Second, boot + 2 * Second, boot + 3 * Second]
        (NewPomodoro (flags 25 5) boot Work True)) = Rest"
proof -
  let ?s = "NewPomodoro (flags 25 5) boot Work True"
  have start: "Status ?s = Work"
    by (simp add: NewPomodoro_def Let_def)
  then have valid: "Status ?s = Work \<or> Status ?s = Rest"
    by simp
  have five: "RestDuration (flags 25 5) = 5 * Minute"
    by (simp add: flags_def wrap64_def Minute_def Second_def)
  show ?thesis
    using Toggle_alternates [OF valid, of "flags 25 5" "boot + Second" "boot + 2 * Second"
        "[boot + Second, boot + 2 * Second, boot + 3 * Second]"] start five
    by simp
qed

section \<open>Pause\<close>

lemma End_Inc: "End (Inc now d s) = Time_Round (End s + d) Second"
  by (simp add: Inc_def Let_def Time_Add_def)

lemma Paused_Inc: "Paused (Inc now d s) = Paused s"
  by (simp add: Inc_def Let_def)

lemma Status_Inc: "Status (Inc now d s) = Status s"
  by (simp add: Inc_def Let_def)



section \<open>The phase is Work or Rest\<close>

text \<open>
  \<^verbatim>\<open>PomodoroStatus\<close> is an integer type, and the theorem on \<^verbatim>\<open>Toggle\<close> asks for a phase
  that is \<^verbatim>\<open>Work\<close> or \<^verbatim>\<open>Rest\<close>. Both variants start in \<^verbatim>\<open>Work\<close>, and every step of both keeps
  the phase in these two values.
\<close>

lemma Status_Pause: "Status (Pause now s) = Status s \<and> Status (Pause_B now s) = Status s"
  by (simp add: Pause_def Pause_B_def Let_def)

lemma phase_select_case:
  assumes "Status s = Work \<or> Status s = Rest"
  shows "Status (select_case cfg now ev s) = Work \<or> Status (select_case cfg now ev s) = Rest"
  using assms next_Status [OF assms, of cfg now]
  by (cases ev) (auto simp: select_case_def Status_Inc Status_Pause)

lemma phase_main_loop:
  "Status s = Work \<or> Status s = Rest \<Longrightarrow>
     Status (fst (main_loop cfg arrivals s out)) = Work
     \<or> Status (fst (main_loop cfg arrivals s out)) = Rest"
proof (induction arrivals arbitrary: s out)
  case Nil
  then show ?case by simp
next
  case (Cons a arrivals)
  obtain ev now now' where a: "a = (ev, now, now')"
    by (cases a)
  from phase_select_case [OF Cons.prems, of cfg now ev] Cons.IH
  show ?case
    by (simp add: a Let_def)
qed

lemma phase_Update_B:
  assumes "Status s = Work \<or> Status s = Rest"
  shows "Status (Update_B now ev s) = Work \<or> Status (Update_B now ev s) = Rest"
  using assms next_Status [OF assms, of constants_B now]
  by (cases ev) (auto simp: Update_B_def)

lemma phase_HandleRequest_B:
  assumes "Status s = Work \<or> Status s = Rest"
  shows "Status (outcome (HandleRequest_B U c now s)) = Work
    \<or> Status (outcome (HandleRequest_B U c now s)) = Rest"
  using assms next_Status [OF assms, of constants_B now]
  by (auto simp: HandleRequest_B_def Let_def Status_Pause split: sum.splits)

lemma phase_NewPomodoro:
  "Status (NewPomodoro cfg now Work paused) = Work \<and> Status (NewPomodoro_B now Work paused) = Work"
  by (simp add: NewPomodoro_def NewPomodoro_B_def Let_def)

section \<open>Inc\<close>

text \<open>
  Claim C4. \<^verbatim>\<open>Inc\<close> moves \<^verbatim>\<open>End\<close> to the whole second nearest to \<^verbatim>\<open>End\<close> plus the
  increment, for an increment of either sign: the result is a multiple of a second and
  at most half a second away from the shifted instant. \<^verbatim>\<open>Inc\<close> with five seconds
  followed by \<^verbatim>\<open>Inc\<close> with minus five seconds leaves \<^verbatim>\<open>End\<close> at the whole second nearest
  to its first value, at most half a second away from it.
\<close>

theorem Inc_shifts_End:
  "End (Inc now' (- 5 * Second) (Inc now (5 * Second) s)) = Time_Round (End s) Second
   \<and> 2 * \<bar>End (Inc now' (- 5 * Second) (Inc now (5 * Second) s)) - End s\<bar> \<le> Second
   \<and> End (Inc now d s) = Time_Round (End s + d) Second
   \<and> End (Inc now d s) mod Second = 0
   \<and> 2 * \<bar>End (Inc now d s) - (End s + d)\<bar> \<le> Second"
proof -
  have "Time_Round (Time_Round (End s + 5 * Second) Second + (- 5) * Second) Second
        = Time_Round (End s) Second"
    using Time_Round_shift [of "End s" 5] Time_Round_shift [of "Time_Round (End s) Second + 5 * Second" "- 5"]
      Time_Round_whole [OF Time_Round_multiple [of "End s"]]
      Time_Round_shift [of "Time_Round (End s) Second" 5]
    by simp
  then have round_trip: "End (Inc now' (- 5 * Second) (Inc now (5 * Second) s)) = Time_Round (End s) Second"
    by (simp add: End_Inc)
  show ?thesis
    using round_trip Time_Round_near [of "End s"] Time_Round_near [of "End s + d"]
      Time_Round_multiple [of "End s + d"]
    by (simp add: End_Inc)
qed

section \<open>The commands of the control channel\<close>

lemma message_cases:
  "message U c = Some m \<Longrightarrow>
     outcome (HandleRequest U c) =
       (if m = ''pause'' then [pauseChannel]
        else if m = ''toggle'' then [toggleChannel]
        else if m = ''inc'' then [incChannel (5 * Second)]
        else if m = ''dec'' then [incChannel (- 5 * Second)]
        else [])"
  by (auto simp: message_def HandleRequest_def Let_def split: sum.splits)

lemma message_cases_B:
  "message U c = Some m \<Longrightarrow>
     outcome (HandleRequest_B U c now s) =
       (if m = ''pause'' then Pause_B now s
        else if m = ''toggle'' then Toggle constants_B now s
        else s)"
  by (auto simp: message_def HandleRequest_B_def Let_def split: sum.splits)

lemma message_None:
  "message U c = None \<Longrightarrow>
     outcome (HandleRequest U c) = [] \<and> outcome (HandleRequest_B U c now s) = s"
  by (auto simp: message_def HandleRequest_def HandleRequest_B_def Let_def split: sum.splits)

lemma nothing_written:
  "written (HandleRequest U c) = [] \<and> written (HandleRequest_B U c now s) = []"
  by (auto simp: HandleRequest_def HandleRequest_B_def Let_def split: sum.splits)

lemma printed_lines:
  "printed (HandleRequest U c) = (case Read c 128 of Inl err \<Rightarrow> [''Error reading: '' @ err] | Inr buffer \<Rightarrow> [])
   \<and> printed (HandleRequest_B U c now s) = printed (HandleRequest U c)"
  by (auto simp: HandleRequest_def HandleRequest_B_def Let_def split: sum.splits)

text \<open>
  Claim C1, as the code has it. The text of a connection, lowercased and trimmed, is
  compared with the commands. In variant A each of \<^verbatim>\<open>pause\<close>, \<^verbatim>\<open>toggle\<close>, \<^verbatim>\<open>inc\<close> and
  \<^verbatim>\<open>dec\<close> makes the handler send exactly one value, and the loop of \<^verbatim>\<open>main\<close> answers it
  with exactly one call: \<^verbatim>\<open>Pause\<close>, \<^verbatim>\<open>Toggle\<close>, \<^verbatim>\<open>Inc\<close> with five seconds, \<^verbatim>\<open>Inc\<close> with
  minus five seconds. In variant B \<^verbatim>\<open>pause\<close> calls \<^verbatim>\<open>Pause\<close> and \<^verbatim>\<open>toggle\<close> calls
  \<^verbatim>\<open>Toggle\<close>, while \<^verbatim>\<open>inc\<close> and \<^verbatim>\<open>dec\<close> leave the state as it is.
\<close>

theorem commands_dispatch:
  "(message U c = Some ''pause'' \<longrightarrow>
      outcome (HandleRequest U c) = [pauseChannel]
      \<and> connection_effect cfg U c now s = Pause now s
      \<and> outcome (HandleRequest_B U c now s) = Pause_B now s)
   \<and> (message U c = Some ''toggle'' \<longrightarrow>
      outcome (HandleRequest U c) = [toggleChannel]
      \<and> connection_effect cfg U c now s = Toggle cfg now s
      \<and> outcome (HandleRequest_B U c now s) = Toggle constants_B now s)
   \<and> (message U c = Some ''inc'' \<longrightarrow>
      outcome (HandleRequest U c) = [incChannel (5 * Second)]
      \<and> connection_effect cfg U c now s = Inc now (5 * Second) s
      \<and> outcome (HandleRequest_B U c now s) = s)
   \<and> (message U c = Some ''dec'' \<longrightarrow>
      outcome (HandleRequest U c) = [incChannel (- 5 * Second)]
      \<and> connection_effect cfg U c now s = Inc now (- 5 * Second) s
      \<and> outcome (HandleRequest_B U c now s) = s)"
  by (auto simp: connection_effect_def select_case_def message_cases message_cases_B)

theorem commands_dispatch_witness:
  "connection_effect (flags 25 5) no_tables (Delivering ''pause\<newline>'') (boot + Second)
       (NewPomodoro (flags 25 5) boot Work True)
     = Pause (boot + Second) (NewPomodoro (flags 25 5) boot Work True)
   \<and> connection_effect (flags 25 5) no_tables (Delivering ''TOGGLE'') (boot + Second)
       (NewPomodoro (flags 25 5) boot Work True)
     = Toggle (flags 25 5) (boot + Second) (NewPomodoro (flags 25 5) boot Work True)
   \<and> connection_effect (flags 25 5) no_tables (Delivering '' inc '') (boot + Second)
       (NewPomodoro (flags 25 5) boot Work True)
     = Inc (boot + Second) (5 * Second) (NewPomodoro (flags 25 5) boot Work True)
   \<and> connection_effect (flags 25 5) no_tables (Delivering ''dec\<newline>'') (boot + Second)
       (NewPomodoro (flags 25 5) boot Work True)
     = Inc (boot + Second) (- 5 * Second) (NewPomodoro (flags 25 5) boot Work True)"
proof -
  have m: "message no_tables (Delivering ''pause\<newline>'') = Some ''pause''"
    "message no_tables (Delivering ''TOGGLE'') = Some ''toggle''"
    "message no_tables (Delivering '' inc '') = Some ''inc''"
    "message no_tables (Delivering ''dec\<newline>'') = Some ''dec''"
    by code_simp+
  show ?thesis
    using m
      commands_dispatch [of no_tables "Delivering ''pause\<newline>''" "flags 25 5"
        "boot + Second" "NewPomodoro (flags 25 5) boot Work True"]
      commands_dispatch [of no_tables "Delivering ''TOGGLE''" "flags 25 5"
        "boot + Second" "NewPomodoro (flags 25 5) boot Work True"]
      commands_dispatch [of no_tables "Delivering '' inc ''" "flags 25 5"
        "boot + Second" "NewPomodoro (flags 25 5) boot Work True"]
      commands_dispatch [of no_tables "Delivering ''dec\<newline>''" "flags 25 5"
        "boot + Second" "NewPomodoro (flags 25 5) boot Work True"]
    by simp
qed

text \<open>
  Claim C1 as stated fails on variant B: a client sends \<^verbatim>\<open>inc\<close> and a newline, the text
  read is the command \<^verbatim>\<open>inc\<close>, the handler leaves the state as it was, and \<^verbatim>\<open>Inc\<close> with
  five seconds would have moved \<^verbatim>\<open>End\<close>.
\<close>

theorem inc_ignored_by_variant_B:
  "message no_tables (Delivering ''inc\<newline>'') = Some ''inc''
   \<and> outcome (HandleRequest_B no_tables (Delivering ''inc\<newline>'') (boot + Second)
          (NewPomodoro_B boot Work False))
       = NewPomodoro_B boot Work False
   \<and> End (Inc (boot + Second) (5 * Second) (NewPomodoro_B boot Work False))
       \<noteq> End (NewPomodoro_B boot Work False)"
  by code_simp

text \<open>
  Claim C7. When the read fails, or the text read is none of the four commands, the
  handler of variant A sends nothing, so that the state of the loop stays as it is,
  the handler of variant B returns the state unchanged, and neither writes a byte back
  on the connection.
\<close>

theorem unrecognized_is_noop:
  assumes "message U c \<notin> {Some ''pause'', Some ''toggle'', Some ''inc'', Some ''dec''}"
  shows "outcome (HandleRequest U c) = []
    \<and> connection_effect cfg U c now s = s
    \<and> outcome (HandleRequest_B U c now s) = s
    \<and> written (HandleRequest U c) = []
    \<and> written (HandleRequest_B U c now s) = []"
proof (cases "message U c")
  case None
  then show ?thesis
    using message_None [of U c now s] nothing_written [of U c now s]
    by (simp add: connection_effect_def)
next
  case (Some m)
  with assms have "m \<noteq> ''pause''" "m \<noteq> ''toggle''" "m \<noteq> ''inc''" "m \<noteq> ''dec''"
    by auto
  then show ?thesis
    using message_cases [OF Some] message_cases_B [OF Some, of now s] nothing_written [of U c now s]
    by (simp add: connection_effect_def)
qed

theorem unrecognized_is_noop_witness:
  "connection_effect (flags 25 5) no_tables (Delivering ''foobar\<newline>'') (boot + Second)
       (NewPomodoro (flags 25 5) boot Work True)
     = NewPomodoro (flags 25 5) boot Work True
   \<and> outcome (HandleRequest_B no_tables (Delivering ''foobar\<newline>'') (boot + Second)
          (NewPomodoro_B boot Work False))
     = NewPomodoro_B boot Work False
   \<and> written (HandleRequest no_tables (Failing ''connection reset by peer'')) = []
   \<and> outcome (HandleRequest no_tables (Failing ''connection reset by peer'')) = []"
proof -
  have m: "message no_tables (Delivering ''foobar\<newline>'') = Some ''foobar''"
    "message no_tables (Failing ''connection reset by peer'') = None"
    by code_simp+
  show ?thesis
    using unrecognized_is_noop [of no_tables "Delivering ''foobar\<newline>''" "flags 25 5"
        "boot + Second" "NewPomodoro (flags 25 5) boot Work True"]
      unrecognized_is_noop [of no_tables "Delivering ''foobar\<newline>''" "flags 25 5"
        "boot + Second" "NewPomodoro_B boot Work False"]
      unrecognized_is_noop [of no_tables "Failing ''connection reset by peer''" "flags 25 5"
        "boot + Second" "NewPomodoro_B boot Work False"]
    by (simp add: m)
qed

section \<open>The buffer of 128 bytes\<close>

lemma asciiSpace_code: "asciiSpace c \<Longrightarrow> (of_char c :: nat) \<le> 32"
  by (auto simp: asciiSpace_def)

lemma lower_code:
  "is_upper c \<Longrightarrow> (of_char (lower c) :: nat) = of_char c + 32"
  by (simp add: lower_def is_upper_def)

lemma asciiSpace_lower: "asciiSpace (lower c) = asciiSpace c"
proof (cases "is_upper c")
  case True
  then have "(of_char (lower c) :: nat) > 32" "(of_char c :: nat) > 32"
    by (simp_all add: lower_code) (simp_all add: is_upper_def)
  then show ?thesis
    using asciiSpace_code [of c] asciiSpace_code [of "lower c"] by auto
next
  case False
  then show ?thesis by (simp add: lower_def)
qed

lemma is_ascii_lower: "is_ascii c \<Longrightarrow> is_ascii (lower c)"
proof (cases "is_upper c")
  case True
  then show ?thesis
    by (simp add: is_ascii_def RuneSelf_def lower_code) (simp add: is_upper_def)
next
  case False
  then show "is_ascii c \<Longrightarrow> ?thesis" by (simp add: lower_def)
qed

lemma ToLower_ascii: "list_all is_ascii s \<Longrightarrow> ToLower U s = map lower s"
proof -
  have "map lower s = s" if "\<not> list_ex is_upper s"
    using that by (induction s) (simp_all add: lower_def)
  then show "list_all is_ascii s \<Longrightarrow> ?thesis"
    by (auto simp: ToLower_def)
qed

lemma trim_stop_length:
  "list_all is_ascii s \<Longrightarrow> length s \<le> length (trim_stop U s) + length (filter asciiSpace s)"
  by (induction s) auto

lemma TrimSpace_length:
  "list_all is_ascii s \<Longrightarrow> length s \<le> length (TrimSpace U s) + length (filter asciiSpace s)"
proof (induction s)
  case Nil
  then show ?case by simp
next
  case (Cons c cs)
  show ?case
  proof (cases "asciiSpace c")
    case True
    then show ?thesis using Cons by simp
  next
    case False
    have "list_all is_ascii (rev (c # cs))"
      using Cons.prems by (simp add: list_all_iff)
    from trim_stop_length [OF this, of U]
    have "length (c # cs) \<le> length (trim_stop U (rev (c # cs))) + length (filter asciiSpace (c # cs))"
      by (simp only: length_rev rev_filter [symmetric])
    then show ?thesis using False Cons.prems by simp
  qed
qed

lemma message_length:
  assumes "list_all is_ascii b"
  shows "length b \<le> length (TrimSpace U (ToLower U b)) + length (filter asciiSpace b)"
proof -
  have "list_all is_ascii (map lower b)"
    using assms by (simp add: list_all_iff is_ascii_lower)
  from TrimSpace_length [OF this, of U]
  have "length b \<le> length (TrimSpace U (map lower b)) + length (filter asciiSpace (map lower b))"
    by simp
  moreover have "filter asciiSpace (map lower b) = map lower (filter asciiSpace b)"
    by (simp add: filter_map o_def asciiSpace_lower)
  ultimately show ?thesis
    using assms by (simp add: ToLower_ascii)
qed

lemma Read_take: "Read (Delivering (take 128 msg)) 128 = Read (Delivering msg) 128"
  by (simp add: Read_def)

lemma outcome_first_128:
  "outcome (HandleRequest U (Delivering msg)) =
     (let message = TrimSpace U (ToLower U (take 128 msg))
      in if message = ''pause'' then [pauseChannel]
         else if message = ''toggle'' then [toggleChannel]
         else if message = ''inc'' then [incChannel (5 * Second)]
         else if message = ''dec'' then [incChannel (- 5 * Second)]
         else [])"
proof (cases "msg = []")
  case True
  have "ToLower U [] = []"
    by (simp add: ToLower_def)
  then show ?thesis
    using True by (simp add: HandleRequest_def Read_def Let_def)
next
  case False
  then show ?thesis
    by (simp add: HandleRequest_def Read_def Let_def)
qed

lemma outcome_first_128_B:
  "outcome (HandleRequest_B U (Delivering msg) now s) =
     (let message = TrimSpace U (ToLower U (take 128 msg))
      in if message = ''pause'' then Pause_B now s
         else if message = ''toggle'' then Toggle constants_B now s
         else s)"
proof (cases "msg = []")
  case True
  have "ToLower U [] = []"
    by (simp add: ToLower_def)
  then show ?thesis
    using True by (simp add: HandleRequest_B_def Read_def Let_def)
next
  case False
  then show ?thesis
    by (simp add: HandleRequest_B_def Read_def Let_def)
qed

text \<open>
  Claim C10, as the code has it. A handler reads once, into 128 bytes: a message and
  its first 128 bytes are handled alike, in both variants. A message of any length
  changes nothing unless its first 128 bytes, lowercased and trimmed, are exactly a
  command; when they are, the command acts, whatever follows the 128 bytes. So a
  command that the buffer cuts is not recognized, and a command that fits is. An ASCII
  message of 128 bytes or more with fewer than 122 whitespace bytes among its first
  128 changes nothing, because what is left after trimming is longer than every
  command.
\<close>

theorem only_first_128_bytes:
  "HandleRequest U (Delivering msg) = HandleRequest U (Delivering (take 128 msg))
   \<and> HandleRequest_B U (Delivering msg) now s = HandleRequest_B U (Delivering (take 128 msg)) now s
   \<and> (TrimSpace U (ToLower U (take 128 msg)) \<notin> {''pause'', ''toggle'', ''inc'', ''dec''} \<longrightarrow>
      outcome (HandleRequest U (Delivering msg)) = []
      \<and> connection_effect cfg U (Delivering msg) now s = s
      \<and> outcome (HandleRequest_B U (Delivering msg) now s) = s)
   \<and> (TrimSpace U (ToLower U (take 128 msg)) = ''pause'' \<longrightarrow>
      connection_effect cfg U (Delivering msg) now s = Pause now s
      \<and> outcome (HandleRequest_B U (Delivering msg) now s) = Pause_B now s)
   \<and> (TrimSpace U (ToLower U (take 128 msg)) = ''toggle'' \<longrightarrow>
      connection_effect cfg U (Delivering msg) now s = Toggle cfg now s
      \<and> outcome (HandleRequest_B U (Delivering msg) now s) = Toggle constants_B now s)
   \<and> (TrimSpace U (ToLower U (take 128 msg)) = ''inc'' \<longrightarrow>
      connection_effect cfg U (Delivering msg) now s = Inc now (5 * Second) s)
   \<and> (TrimSpace U (ToLower U (take 128 msg)) = ''dec'' \<longrightarrow>
      connection_effect cfg U (Delivering msg) now s = Inc now (- 5 * Second) s)
   \<and> (128 \<le> length msg \<and> list_all is_ascii (take 128 msg)
        \<and> length (filter asciiSpace (take 128 msg)) < 122 \<longrightarrow>
      outcome (HandleRequest U (Delivering msg)) = []
      \<and> connection_effect cfg U (Delivering msg) now s = s
      \<and> outcome (HandleRequest_B U (Delivering msg) now s) = s)"
proof -
  let ?m = "TrimSpace U (ToLower U (take 128 msg))"
  have same: "HandleRequest U (Delivering msg) = HandleRequest U (Delivering (take 128 msg))"
    "HandleRequest_B U (Delivering msg) now s = HandleRequest_B U (Delivering (take 128 msg)) now s"
    by (simp_all add: HandleRequest_def HandleRequest_B_def Read_take)
  have quiet: "outcome (HandleRequest U (Delivering msg)) = []
      \<and> connection_effect cfg U (Delivering msg) now s = s
      \<and> outcome (HandleRequest_B U (Delivering msg) now s) = s"
    if "?m \<notin> {''pause'', ''toggle'', ''inc'', ''dec''}"
    using that
    by (simp add: outcome_first_128 outcome_first_128_B connection_effect_def Let_def)
  have acts: "?m = ''pause'' \<longrightarrow>
        connection_effect cfg U (Delivering msg) now s = Pause now s
        \<and> outcome (HandleRequest_B U (Delivering msg) now s) = Pause_B now s"
    "?m = ''toggle'' \<longrightarrow>
        connection_effect cfg U (Delivering msg) now s = Toggle cfg now s
        \<and> outcome (HandleRequest_B U (Delivering msg) now s) = Toggle constants_B now s"
    "?m = ''inc'' \<longrightarrow> connection_effect cfg U (Delivering msg) now s = Inc now (5 * Second) s"
    "?m = ''dec'' \<longrightarrow> connection_effect cfg U (Delivering msg) now s = Inc now (- 5 * Second) s"
    by (simp_all add: outcome_first_128 outcome_first_128_B connection_effect_def Let_def
        select_case_def)
  have long: "?m \<notin> {''pause'', ''toggle'', ''inc'', ''dec''}"
    if long: "128 \<le> length msg" and ascii: "list_all is_ascii (take 128 msg)"
      and few: "length (filter asciiSpace (take 128 msg)) < 122"
  proof -
    have "length (take 128 msg) = 128"
      using long by simp
    with message_length [OF ascii, of U] few have "6 < length ?m"
      by simp
    then show ?thesis
      by auto
  qed
  show ?thesis
    using same quiet acts long by blast
qed

theorem only_first_128_bytes_witness:
  "outcome (HandleRequest no_tables (Delivering (replicate 200 (CHR ''x'')))) = []
   \<and> outcome (HandleRequest_B no_tables (Delivering (replicate 200 (CHR ''x''))) (boot + Second)
          (NewPomodoro_B boot Work False))
     = NewPomodoro_B boot Work False
   \<and> connection_effect (flags 25 5) no_tables (Delivering (replicate 125 (CHR '' '') @ ''pause''))
        (boot + Second) (NewPomodoro (flags 25 5) boot Work True)
     = NewPomodoro (flags 25 5) boot Work True
   \<and> connection_effect (flags 25 5) no_tables (Delivering (''toggle'' @ replicate 200 (CHR '' '')))
        (boot + Second) (NewPomodoro (flags 25 5) boot Work True)
     = Toggle (flags 25 5) (boot + Second) (NewPomodoro (flags 25 5) boot Work True)"
proof -
  have h: "128 \<le> length (replicate 200 (CHR ''x''))
      \<and> list_all is_ascii (take 128 (replicate 200 (CHR ''x'')))
      \<and> length (filter asciiSpace (take 128 (replicate 200 (CHR ''x'')))) < 122"
    by code_simp
  have cut: "TrimSpace no_tables (ToLower no_tables (take 128 (replicate 125 (CHR '' '') @ ''pause'')))
      \<notin> {''pause'', ''toggle'', ''inc'', ''dec''}"
    by code_simp
  have padded: "TrimSpace no_tables (ToLower no_tables (take 128 (''toggle'' @ replicate 200 (CHR '' ''))))
      = ''toggle''"
    by code_simp
  note ascii_case = only_first_128_bytes [of no_tables "replicate 200 (CHR ''x'')" "boot + Second"
      "NewPomodoro_B boot Work False" "flags 25 5"]
  note cut_case = only_first_128_bytes [of no_tables "replicate 125 (CHR '' '') @ ''pause''"
      "boot + Second" "NewPomodoro (flags 25 5) boot Work True" "flags 25 5"]
  note padded_case = only_first_128_bytes [of no_tables "''toggle'' @ replicate 200 (CHR '' '')"
      "boot + Second" "NewPomodoro (flags 25 5) boot Work True" "flags 25 5"]
  note c1 = ascii_case [THEN conjunct2, THEN conjunct2, THEN conjunct2, THEN conjunct2,
      THEN conjunct2, THEN conjunct2, THEN conjunct2, THEN mp, OF h]
  note c2 = cut_case [THEN conjunct2, THEN conjunct2, THEN conjunct1, THEN mp, OF cut]
  note c3 = padded_case [THEN conjunct2, THEN conjunct2, THEN conjunct2, THEN conjunct2,
      THEN conjunct1, THEN mp, OF padded]
  show ?thesis
    by (rule conjI [OF c1 [THEN conjunct1] conjI [OF c1 [THEN conjunct2, THEN conjunct2]
          conjI [OF c2 [THEN conjunct2, THEN conjunct1] c3 [THEN conjunct1]]]])
qed

text \<open>
  Claim C10 as stated fails for a message longer than 128 bytes: \<^verbatim>\<open>pause\<close> followed by
  124 spaces has 129 bytes, its first 128 bytes trim to \<^verbatim>\<open>pause\<close>, and both variants
  act on it: variant A sends on the pause channel, variant B pauses a running timer.
\<close>

theorem long_message_recognized:
  "length (''pause'' @ replicate 124 (CHR '' '')) = 129
   \<and> outcome (HandleRequest no_tables (Delivering (''pause'' @ replicate 124 (CHR '' ''))))
       = [pauseChannel]
   \<and> Paused (outcome (HandleRequest_B no_tables (Delivering (''pause'' @ replicate 124 (CHR '' '')))
          (boot + Second) (NewPomodoro_B boot Work False)))
   \<and> Paused (NewPomodoro_B boot Work False) = False"
  by code_simp

section \<open>Rounding a duration to the second\<close>

lemma wrap64_id: "- (2 ^ 63) \<le> x \<Longrightarrow> x < 2 ^ 63 \<Longrightarrow> wrap64 x = x"
  by (simp add: wrap64_def)

lemma wrap64_below:
  assumes "- (2 ^ 63) - 2 ^ 64 \<le> x" "x < - (2 ^ 63)"
  shows "wrap64 x = x + 2 ^ 64"
proof -
  have "(x + 2 ^ 63) mod 2 ^ 64 = (x + 2 ^ 63 + 2 ^ 64) mod 2 ^ 64"
    by (simp only: mod_add_self2)
  also have "\<dots> = x + 2 ^ 63 + 2 ^ 64"
    using assms by (intro mod_pos_pos_trivial) simp_all
  finally show ?thesis
    by (simp add: wrap64_def)
qed

lemma quo_nonneg: "0 \<le> a \<Longrightarrow> 0 < b \<Longrightarrow> quo a b = a div b"
  by (cases "a = 0") (simp_all add: quo_def)

lemma quo_nonpos: "a \<le> 0 \<Longrightarrow> 0 < b \<Longrightarrow> quo a b = - ((- a) div b)"
  by (cases "a = 0") (simp_all add: quo_def)

lemma rem_nonneg: "0 \<le> a \<Longrightarrow> 0 < b \<Longrightarrow> rem a b = a mod b"
  by (simp add: rem_def quo_nonneg minus_mult_div_eq_mod)

lemma rem_nonpos: "a \<le> 0 \<Longrightarrow> 0 < b \<Longrightarrow> rem a b = - ((- a) mod b)"
proof -
  assume a: "a \<le> 0" "0 < b"
  have "(- a) mod b = - a - b * ((- a) div b)"
    by (simp add: minus_mult_div_eq_mod)
  then show ?thesis
    using a by (simp add: rem_def quo_nonpos)
qed

lemma Round_nonneg:
  assumes "0 \<le> d" "d \<le> maxDuration"
  shows "0 \<le> Duration_Round d Second"
proof -
  have r: "rem d Second = d mod Second"
    using assms Second_pos by (simp add: rem_nonneg)
  have "0 \<le> d mod Second" "d mod Second \<le> d"
    using assms Second_pos by (simp_all add: zmod_le_nonneg_dividend)
  then have "wrap64 (d - d mod Second) = d - d mod Second"
    using assms by (intro wrap64_id) (simp_all add: maxDuration_def)
  then show ?thesis
    using assms Second_pos \<open>d mod Second \<le> d\<close>
    by (simp add: Duration_Round_def Let_def r maxDuration_def)
qed

lemma Round_small:
  assumes "d < 0" "- Second < 2 * d"
  shows "Duration_Round d Second = 0"
proof -
  have "(- d) mod Second = - d"
    using assms by (intro mod_pos_pos_trivial) simp_all
  then have "rem d Second = d"
    using assms Second_pos by (simp add: rem_nonpos)
  then show ?thesis
    using assms Second_pos by (simp add: Duration_Round_def Let_def lessThanHalf_def wrap64_def)
qed

lemma Round_negative:
  assumes "minDuration \<le> d" "2 * d \<le> - Second"
  shows "Duration_Round d Second \<le> - Second"
proof -
  define r where "r = (- d) mod Second"
  have neg: "d < 0"
    using assms Second_pos by simp
  have r: "rem d Second = - r"
    using neg Second_pos by (simp add: rem_nonpos r_def)
  have r_bounds: "0 \<le> r" "r < Second" "r \<le> - d"
    using neg Second_pos by (simp_all add: r_def zmod_le_nonneg_dividend)
  have whole: "d + r = - (Second * ((- d) div Second))"
    by (simp add: r_def minus_mult_div_eq_mod [symmetric])
  show ?thesis
  proof (cases "lessThanHalf r Second")
    case True
    then have "Second \<le> - d"
      using assms r_bounds Second_pos
      by (cases "- d < Second") (simp_all add: lessThanHalf_def r_def)
    then have "0 < (- d) div Second"
      using Second_pos by (simp add: pos_imp_zdiv_pos_iff)
    then have "Second * 1 \<le> Second * ((- d) div Second)"
      using Second_pos by (intro mult_left_mono) simp_all
    then have le: "d + r \<le> - Second"
      by (simp add: whole)
    have "wrap64 (d + r) = d + r"
      using assms r_bounds neg by (intro wrap64_id) (simp_all add: minDuration_def)
    then show ?thesis
      using True neg le Second_pos by (simp add: Duration_Round_def Let_def r)
  next
    case False
    have x: "d - Second + r \<le> - Second"
      using r_bounds by simp
    have "(if wrap64 (d - Second + r) < d then wrap64 (d - Second + r) else minDuration)
        \<le> - Second"
    proof (cases "- (2 ^ 63) \<le> d - Second + r")
      case True
      then have "wrap64 (d - Second + r) = d - Second + r"
        using x Second_pos by (intro wrap64_id) simp_all
      then show ?thesis
        using x by (simp add: minDuration_def Second_def)
    next
      case False
      then have "wrap64 (d - Second + r) = d - Second + r + 2 ^ 64"
        using assms r_bounds by (intro wrap64_below) (simp_all add: minDuration_def Second_def)
      then have "\<not> wrap64 (d - Second + r) < d"
        using r_bounds by (simp add: Second_def)
      then show ?thesis
        by (simp add: minDuration_def Second_def)
    qed
    then show ?thesis
      using False neg Second_pos by (simp add: Duration_Round_def Let_def r)
  qed
qed

lemma Time_Sub_bounds: "minDuration \<le> Time_Sub t u \<and> Time_Sub t u \<le> maxDuration"
  by (simp add: Time_Sub_def Let_def minDuration_def maxDuration_def)

lemma Time_Sub_late: "(- Second < 2 * Time_Sub t u) = (2 * (u - t) < Second)"
  by (auto simp: Time_Sub_def Let_def minDuration_def maxDuration_def Second_def)

lemma fields_nonneg:
  assumes "0 \<le> e"
  shows "0 \<le> Minutes_int e \<and> 0 \<le> Seconds_int e - 60 * Minutes_int e"
proof -
  have "e div Minute = (e div Second) div 60"
    using Second_pos by (simp add: Minute_def zdiv_zmult2_eq mult.commute)
  then have "e div Second - 60 * (e div Minute) = (e div Second) mod 60"
    by (simp add: minus_mult_div_eq_mod)
  moreover have "0 \<le> e div Minute"
    using assms Second_pos by (simp add: Minute_def pos_imp_zdiv_nonneg_iff)
  ultimately show ?thesis
    using assms Second_pos by (simp add: Minutes_int_def Seconds_int_def quo_nonneg Minute_def)
qed

lemma fields_negative:
  assumes "e \<le> - Second"
  shows "\<not> (0 \<le> Minutes_int e \<and> 0 \<le> Seconds_int e - 60 * Minutes_int e)"
proof -
  have neg: "e \<le> 0"
    using assms Second_pos by simp
  have "0 < (- e) div Second"
    using assms Second_pos by (simp add: pos_imp_zdiv_pos_iff)
  then have s: "Seconds_int e < 0"
    using neg Second_pos by (simp add: Seconds_int_def quo_nonpos)
  have "0 \<le> (- e) div Minute"
    using neg Second_pos by (simp add: Minute_def pos_imp_zdiv_nonneg_iff)
  then have m: "Minutes_int e \<le> 0"
    using neg Second_pos by (simp add: Minutes_int_def quo_nonpos Minute_def)
  show ?thesis
    using s m by auto
qed

section \<open>The sign of the displayed time\<close>

text \<open>
  Claim C6, as the code has it. The minutes and the seconds that \<^verbatim>\<open>String\<close> prints are
  both non-negative exactly when the clock is less than half a second past \<^verbatim>\<open>End\<close>.
  Nothing in the code keeps \<^verbatim>\<open>End\<close> from falling behind the clock.
\<close>

theorem nonnegative_display:
  "(0 \<le> minutes now s \<and> 0 \<le> seconds now s) = (2 * (now - End s) < Second)"
proof (cases "2 * (now - End s) < Second")
  case True
  then have late: "- Second < 2 * Time_Sub (End s) now"
    by (simp add: Time_Sub_late)
  have "0 \<le> elapsedTime now s"
  proof (cases "Time_Sub (End s) now < 0")
    case True
    with late show ?thesis by (simp add: elapsedTime_def Round_small)
  next
    case False
    then show ?thesis
      using Time_Sub_bounds [of "End s" now] by (simp add: elapsedTime_def Round_nonneg)
  qed
  then show ?thesis
    using True fields_nonneg [of "elapsedTime now s"] by (simp add: minutes_def seconds_def)
next
  case False
  then have "2 * Time_Sub (End s) now \<le> - Second"
    using Time_Sub_late [of "End s" now] by simp
  then have "elapsedTime now s \<le> - Second"
    using Time_Sub_bounds [of "End s" now] by (simp add: elapsedTime_def Round_negative)
  then show ?thesis
    using False fields_negative [of "elapsedTime now s"] by (simp add: minutes_def seconds_def)
qed

text \<open>
  Claim C6 as stated fails in variant A. Started with \<^verbatim>\<open>-w 1\<close>, the timer is paused with
  one minute left; thirteen \<^verbatim>\<open>dec\<close> commands move \<^verbatim>\<open>End\<close> five seconds before the start,
  and the line printed after the last one shows minus five seconds.
\<close>

theorem negative_display_reached:
  "seconds (boot + 13001000) (fst (main_loop (flags 1 5) thirteen_decs (NewPomodoro (flags 1 5) boot Work True) [])) = - 5
   \<and> last (snd (main_loop (flags 1 5) thirteen_decs (NewPomodoro (flags 1 5) boot Work True) []))
       = PauseEmoji @ '' 00:-5''"
  by code_simp

section \<open>The format of the line\<close>

lemma Round_exact:
  assumes "- Second < 2 * d" "d + Second \<le> maxDuration"
  shows "Duration_Round d Second = (d + Second div 2) div Second * Second"
proof (cases "d < 0")
  case True
  then have "(d + Second div 2) div Second = 0"
    using assms by (intro div_pos_pos_trivial) (simp_all add: Second_def)
  then show ?thesis
    using True assms by (simp add: Round_small)
next
  case False
  define q where "q = d div Second"
  define r where "r = d mod Second"
  have d: "d = Second * q + r"
    by (simp add: q_def r_def)
  have r_bounds: "0 \<le> r" "r < Second"
    using Second_pos by (simp_all add: r_def)
  have q_nonneg: "0 \<le> q"
    using False Second_pos by (simp add: q_def pos_imp_zdiv_nonneg_iff)
  have rem: "rem d Second = r"
    using False Second_pos by (simp add: rem_nonneg r_def)
  show ?thesis
  proof (cases "lessThanHalf r Second")
    case True
    have "d + Second div 2 = Second * q + (r + Second div 2)"
      using d by simp
    moreover have "0 \<le> r + Second div 2" "r + Second div 2 < Second"
      using True r_bounds by (simp_all add: lessThanHalf_def Second_def)
    ultimately have nearest: "(d + Second div 2) div Second = q"
      by (rule int_div_pos_eq)
    have "wrap64 (d - r) = d - r"
      using False assms r_bounds Second_pos by (intro wrap64_id) (simp_all add: maxDuration_def)
    then have "Duration_Round d Second = d - r"
      using True False Second_pos by (simp add: Duration_Round_def Let_def rem)
    also have "\<dots> = q * Second"
      using d by simp
    finally show ?thesis
      by (simp only: nearest)
  next
    case half: False
    have "d + Second div 2 = Second * (q + 1) + (r + Second div 2 - Second)"
      using d by (simp add: algebra_simps)
    moreover have "0 \<le> r + Second div 2 - Second" "r + Second div 2 - Second < Second"
      using half r_bounds by (simp_all add: lessThanHalf_def Second_def)
    ultimately have nearest: "(d + Second div 2) div Second = q + 1"
      by (rule int_div_pos_eq)
    have "wrap64 (d + Second - r) = d + Second - r"
      using False assms r_bounds Second_pos by (intro wrap64_id) (simp_all add: maxDuration_def)
    then have "Duration_Round d Second = d + Second - r"
      using half False Second_pos r_bounds by (simp add: Duration_Round_def Let_def rem)
    also have "\<dots> = (q + 1) * Second"
      using d by (simp add: algebra_simps)
    finally show ?thesis
      by (simp only: nearest)
  qed
qed

lemma digit_zero: "digit 0 = CHR ''0''"
  by code_simp

lemma decimal_two_digits: "n < 100 \<Longrightarrow> zero_pad 2 (decimal n) = two_digits n"
proof (cases "n < 10")
  case True
  then show ?thesis
    by (simp add: decimal.simps [of n] zero_pad_def two_digits_def digit_zero)
next
  case False
  assume "n < 100"
  then have "n div 10 < 10"
    by simp
  then have "decimal (n div 10) = [digit (n div 10)]"
    by (simp add: decimal.simps [of "n div 10"])
  then show ?thesis
    using False by (simp add: decimal.simps [of n] zero_pad_def two_digits_def)
qed

lemma fmt_02d_two_digits: "0 \<le> n \<Longrightarrow> n < 100 \<Longrightarrow> fmt_02d n = two_digits (nat n)"
  by (simp add: fmt_02d_def decimal_two_digits)

lemma is_digit_digit: "k < 10 \<Longrightarrow> is_digit (digit k)"
  by (simp add: is_digit_def digit_def)

lemma has_format_two_digits:
  "m < 100 \<Longrightarrow> k < 100 \<Longrightarrow> has_format icon (icon @ '' '' @ two_digits m @ '':'' @ two_digits k)"
  by (simp add: has_format_def two_digits_def is_digit_digit)

lemma fields_exact:
  assumes "0 \<le> R"
  shows "Minutes_int (R * Second) = R div 60
    \<and> Seconds_int (R * Second) - 60 * Minutes_int (R * Second) = R mod 60"
proof -
  have nonneg: "0 \<le> R * Second"
    using assms Second_pos by simp
  have "(R * Second) div (60 * Second) = R div 60"
    using Second_pos by simp
  then have m: "Minutes_int (R * Second) = R div 60"
    using nonneg Second_pos by (simp add: Minutes_int_def Minute_def quo_nonneg)
  have "Seconds_int (R * Second) = R"
    using nonneg Second_pos by (simp add: Seconds_int_def quo_nonneg)
  then show ?thesis
    using m by (simp add: minus_mult_div_eq_mod)
qed

lemma String_in_range:
  assumes "- Second < 2 * (End s - now)" "2 * (End s - now) < 200 * Minute - Second"
  shows "String now s = Render_spec now s \<and> has_format (icon_spec s) (String now s)"
proof -
  define R where "R = remaining_spec now s"
  have sub: "Time_Sub (End s) now = End s - now"
    using assms by (simp add: Time_Sub_def Let_def maxDuration_def minDuration_def Minute_def Second_def)
  have "elapsedTime now s = (End s - now + Second div 2) div Second * Second"
    unfolding elapsedTime_def sub
    using assms by (intro Round_exact) (simp_all add: maxDuration_def Minute_def Second_def)
  then have e: "elapsedTime now s = R * Second"
    by (simp add: R_def remaining_spec_def)
  have R_lo: "0 \<le> R"
    using assms Second_pos by (simp add: R_def remaining_spec_def pos_imp_zdiv_nonneg_iff Second_def)
  have "End s - now + Second div 2 < Second * 6000"
    using assms by (simp add: Minute_def Second_def)
  moreover have "R * Second = (End s - now + Second div 2) - (End s - now + Second div 2) mod Second"
    by (simp add: R_def remaining_spec_def minus_mod_eq_div_mult)
  moreover have "0 \<le> (End s - now + Second div 2) mod Second"
    using Second_pos by simp
  ultimately have "R * Second < Second * 6000"
    by linarith
  then have R_hi: "R < 6000"
    by (simp add: Second_def)
  have m: "minutes now s = R div 60" and k: "seconds now s = R mod 60"
    using fields_exact [OF R_lo] by (simp_all add: minutes_def seconds_def e)
  have m_range: "0 \<le> R div 60" "R div 60 < 100"
    using R_lo R_hi by simp_all
  have k_range: "0 \<le> R mod 60" "R mod 60 < 100"
    using pos_mod_bound [of 60 R] by simp_all
  have eq: "String now s = Render_spec now s"
    using m_range k_range
    by (simp add: String_def Sprintf_def Render_spec_def suffix_def icon_spec_def m k
        fmt_02d_two_digits R_def)
  have "nat (R div 60) < 100" "nat (R mod 60) < 100"
    using m_range k_range by simp_all
  then have "has_format (icon_spec s) (Render_spec now s)"
    unfolding Render_spec_def R_def [symmetric] by (rule has_format_two_digits)
  then show ?thesis
    using eq by simp
qed

lemma Round_large:
  assumes "200 * Minute - Second \<le> 2 * d" "d \<le> maxDuration"
  shows "100 * Minute \<le> Duration_Round d Second"
proof (cases "d + Second \<le> maxDuration")
  case True
  have "- Second < 2 * d"
    using assms by (simp add: Minute_def Second_def)
  then have exact: "Duration_Round d Second = (d + Second div 2) div Second * Second"
    using True by (rule Round_exact)
  have "6000 * Second \<le> d + Second div 2"
    using assms by (simp add: Minute_def Second_def)
  then have "(6000 * Second) div Second \<le> (d + Second div 2) div Second"
    using Second_pos by (intro zdiv_mono1) simp_all
  then have "6000 \<le> (d + Second div 2) div Second"
    using Second_pos by simp
  then have "6000 * Second \<le> (d + Second div 2) div Second * Second"
    using Second_pos by (intro mult_right_mono) simp_all
  then show ?thesis
    by (simp add: exact Minute_def)
next
  case False
  have nonneg: "0 \<le> d"
    using False by (simp add: maxDuration_def Second_def)
  have r: "rem d Second = d mod Second"
    using nonneg Second_pos by (simp add: rem_nonneg)
  have r_bounds: "0 \<le> d mod Second" "d mod Second < Second"
    using Second_pos by simp_all
  have "wrap64 (d - d mod Second) = d - d mod Second"
    using False assms r_bounds
    by (intro wrap64_id) (simp_all add: maxDuration_def Second_def)
  then have "Duration_Round d Second =
      (if lessThanHalf (d mod Second) Second then d - d mod Second
       else if d < wrap64 (d + Second - d mod Second) then wrap64 (d + Second - d mod Second)
       else maxDuration)"
    using nonneg Second_pos by (simp add: Duration_Round_def Let_def r)
  then have "d - Second \<le> Duration_Round d Second"
    using r_bounds assms by simp
  moreover have "100 * Minute \<le> d - Second"
    using False by (simp add: maxDuration_def Minute_def Second_def)
  ultimately show ?thesis
    by simp
qed

lemma Time_Sub_large:
  "200 * Minute - Second \<le> 2 * (t - u) \<Longrightarrow> 200 * Minute - Second \<le> 2 * Time_Sub t u"
  by (simp add: Time_Sub_def Let_def maxDuration_def minDuration_def Minute_def Second_def)

lemma minutes_large:
  assumes "200 * Minute - Second \<le> 2 * (End s - now)"
  shows "100 \<le> minutes now s"
proof -
  have big: "100 * Minute \<le> elapsedTime now s"
    unfolding elapsedTime_def
    using Time_Sub_large [OF assms] Time_Sub_bounds [of "End s" now] by (intro Round_large) simp_all
  have pos: "0 < Minute"
    by (simp add: Minute_def Second_def)
  have "(100 * Minute) div Minute \<le> elapsedTime now s div Minute"
    using big pos by (intro zdiv_mono1)
  moreover have "0 \<le> elapsedTime now s"
    using big pos by simp
  ultimately show ?thesis
    using pos by (simp add: minutes_def Minutes_int_def quo_nonneg)
qed

lemma decimal_nonempty: "1 \<le> length (decimal n)"
  by (subst decimal.simps) simp

lemma decimal_long: "100 \<le> n \<Longrightarrow> 3 \<le> length (decimal n)"
proof -
  assume "100 \<le> n"
  then have "\<not> n < 10" "\<not> n div 10 < 10"
    by simp_all
  then have "decimal n = decimal (n div 10 div 10) @ [digit (n div 10 mod 10)] @ [digit (n mod 10)]"
    by (simp add: decimal.simps [of n] decimal.simps [of "n div 10"])
  then show ?thesis
    using decimal_nonempty [of "n div 10 div 10"] by simp
qed

lemma length_zero_pad: "length (zero_pad w ds) = max w (length ds)"
  by (auto simp: zero_pad_def)

lemma fmt_02d_long:
  assumes "100 \<le> n"
  shows "3 \<le> length (fmt_02d n)"
proof -
  have "100 \<le> nat n"
    using assms by simp
  then have "3 \<le> length (decimal (nat n))"
    by (rule decimal_long)
  then show ?thesis
    using assms by (simp add: fmt_02d_def length_zero_pad)
qed

lemma fmt_02d_wide: "2 \<le> length (fmt_02d n)"
  using decimal_nonempty [of "nat (- n)"] by (simp add: fmt_02d_def length_zero_pad)

lemma fmt_02d_minus: "n < 0 \<Longrightarrow> hd (fmt_02d n) = CHR ''-''"
  by (simp add: fmt_02d_def)

lemma fields_nonpos:
  assumes "e \<le> - Second"
  shows "Minutes_int e \<le> 0 \<and> Seconds_int e - 60 * Minutes_int e \<le> 0
    \<and> (Minutes_int e < 0 \<or> Seconds_int e - 60 * Minutes_int e < 0)"
proof -
  have neg: "e \<le> 0"
    using assms Second_pos by simp
  have "(- e) div Minute = ((- e) div Second) div 60"
    using Second_pos by (simp add: Minute_def zdiv_zmult2_eq mult.commute)
  then have "(- e) div Second - 60 * ((- e) div Minute) = ((- e) div Second) mod 60"
    by (simp add: minus_mult_div_eq_mod)
  then have k: "Seconds_int e - 60 * Minutes_int e = - (((- e) div Second) mod 60)"
    using neg Second_pos by (simp add: Minutes_int_def Seconds_int_def quo_nonpos Minute_def)
  have "0 \<le> (- e) div Minute"
    using neg Second_pos by (simp add: Minute_def pos_imp_zdiv_nonneg_iff)
  then have m: "Minutes_int e \<le> 0"
    using neg Second_pos by (simp add: Minutes_int_def quo_nonpos Minute_def)
  have "0 \<le> ((- e) div Second) mod 60"
    by simp
  then have "Seconds_int e - 60 * Minutes_int e \<le> 0"
    by (simp add: k)
  then show ?thesis
    using m fields_negative [OF assms] by auto
qed

lemma fields_late:
  assumes "Second \<le> 2 * (now - End s)"
  shows "minutes now s \<le> 0 \<and> seconds now s \<le> 0 \<and> (minutes now s < 0 \<or> seconds now s < 0)"
proof -
  have "2 * Time_Sub (End s) now \<le> - Second"
    using assms Time_Sub_late [of "End s" now] by simp
  then have "elapsedTime now s \<le> - Second"
    using Time_Sub_bounds [of "End s" now] by (simp add: elapsedTime_def Round_negative)
  from fields_nonpos [OF this] show ?thesis
    by (simp add: minutes_def seconds_def)
qed

lemma is_MM_SS_iff:
  "is_MM_SS xs =
     (length xs = 5 \<and> is_digit (xs ! 0) \<and> is_digit (xs ! 1) \<and> xs ! 2 = CHR '':''
      \<and> is_digit (xs ! 3) \<and> is_digit (xs ! 4))"
  by (cases xs rule: is_MM_SS.cases) simp_all

lemma has_format_fields:
  "has_format icon (icon @ '' '' @ a @ '':'' @ b) = is_MM_SS (a @ '':'' @ b)"
  by (simp add: has_format_def)

lemma not_MM_SS_long:
  assumes "3 \<le> length a" "2 \<le> length b"
  shows "\<not> is_MM_SS (a @ '':'' @ b)"
  using assms by (simp add: is_MM_SS_iff)

lemma not_is_digit_minus: "\<not> is_digit (CHR ''-'')"
  by (simp add: is_digit_def)

lemma not_MM_SS_minus:
  assumes "2 \<le> length a" "2 \<le> length b" "hd a = CHR ''-'' \<or> hd b = CHR ''-''"
  shows "\<not> is_MM_SS (a @ '':'' @ b)"
proof
  assume f: "is_MM_SS (a @ '':'' @ b)"
  then have "length (a @ '':'' @ b) = 5"
    by (simp add: is_MM_SS_iff)
  with assms have len: "length a = 2" "length b = 2"
    by simp_all
  then obtain a0 a1 b0 b1 where ab: "a = [a0, a1]" "b = [b0, b1]"
    by (metis (no_types, opaque_lifting) One_nat_def Suc_1 length_0_conv length_Suc_conv)
  with f have "is_digit a0" "is_digit b0"
    by simp_all
  with assms(3) ab show False
    by (auto simp: not_is_digit_minus)
qed

lemma String_fields:
  "String now s = icon_spec s @ '' '' @ fmt_02d (minutes now s) @ '':'' @ fmt_02d (seconds now s)"
  by (simp add: String_def Sprintf_def suffix_def icon_spec_def)

lemma has_format_iff:
  "has_format (icon_spec s) (String now s) =
     (- Second < 2 * (End s - now) \<and> 2 * (End s - now) < 200 * Minute - Second)"
proof (cases "- Second < 2 * (End s - now)")
  case late: False
  then have "Second \<le> 2 * (now - End s)"
    by simp
  from fields_late [OF this]
  have "hd (fmt_02d (minutes now s)) = CHR ''-'' \<or> hd (fmt_02d (seconds now s)) = CHR ''-''"
    using fmt_02d_minus by blast
  then have "\<not> is_MM_SS (fmt_02d (minutes now s) @ '':'' @ fmt_02d (seconds now s))"
    by (intro not_MM_SS_minus fmt_02d_wide)
  then show ?thesis
    using late by (simp only: String_fields has_format_fields) simp
next
  case True
  show ?thesis
  proof (cases "2 * (End s - now) < 200 * Minute - Second")
    case True
    with \<open>- Second < 2 * (End s - now)\<close>
    have "has_format (icon_spec s) (String now s)"
      using String_in_range [of s now] by blast
    then show ?thesis
      using True \<open>- Second < 2 * (End s - now)\<close> by simp
  next
    case False
    then have "100 \<le> minutes now s"
      by (intro minutes_large) simp
    then have "\<not> is_MM_SS (fmt_02d (minutes now s) @ '':'' @ fmt_02d (seconds now s))"
      by (intro not_MM_SS_long fmt_02d_long fmt_02d_wide)
    then show ?thesis
      using False by (simp only: String_fields has_format_fields) simp
  qed
qed

text \<open>
  Claim C5, as the code has it. In every state the line starts with the pause glyph
  when paused, with the work glyph when running in phase \<^verbatim>\<open>Work\<close>, with the rest glyph
  when running in phase \<^verbatim>\<open>Rest\<close>; then come a space, the minutes under \<^verbatim>\<open>%02d\<close>, a colon
  and the seconds under \<^verbatim>\<open>%02d\<close>. When the time left, rounded to the second, is at
  least zero and below one hundred minutes, each field is two digits and the line is
  exactly the icon, a space and \<^verbatim>\<open>MM:SS\<close> of the time left rounded to the nearest second.
  When it is one hundred minutes or more, the minutes are at least 100 and their field
  has three characters or more. When it is negative, neither the minutes nor the
  seconds are positive, one of them is negative, and the field of a negative one starts
  with a minus sign. In these two cases the line is not of the shape icon, space,
  \<^verbatim>\<open>MM:SS\<close>.
\<close>

theorem String_format:
  "(Paused s \<longrightarrow> take 3 (String now s) = PauseEmoji)
   \<and> (\<not> Paused s \<and> Status s = Work \<longrightarrow> take 4 (String now s) = TomatoEmoji)
   \<and> (\<not> Paused s \<and> Status s = Rest \<longrightarrow> take 4 (String now s) = RestEmoji)
   \<and> String now s = icon_spec s @ '' '' @ fmt_02d (minutes now s) @ '':'' @ fmt_02d (seconds now s)
   \<and> (- Second < 2 * (End s - now) \<and> 2 * (End s - now) < 200 * Minute - Second \<longrightarrow>
        String now s = Render_spec now s \<and> has_format (icon_spec s) (String now s))
   \<and> (200 * Minute - Second \<le> 2 * (End s - now) \<longrightarrow>
        100 \<le> minutes now s \<and> 3 \<le> length (fmt_02d (minutes now s))
        \<and> \<not> has_format (icon_spec s) (String now s))
   \<and> (Second \<le> 2 * (now - End s) \<longrightarrow>
        minutes now s \<le> 0 \<and> seconds now s \<le> 0
        \<and> (minutes now s < 0 \<or> seconds now s < 0)
        \<and> (hd (fmt_02d (minutes now s)) = CHR ''-'' \<or> hd (fmt_02d (seconds now s)) = CHR ''-'')
        \<and> \<not> has_format (icon_spec s) (String now s))"
proof -
  have "Paused s \<longrightarrow> take 3 (String now s) = PauseEmoji"
    by (simp add: String_def Sprintf_def suffix_def PauseEmoji_def)
  moreover have "\<not> Paused s \<and> Status s = Work \<longrightarrow> take 4 (String now s) = TomatoEmoji"
    by (simp add: String_def Sprintf_def suffix_def TomatoEmoji_def)
  moreover have "\<not> Paused s \<and> Status s = Rest \<longrightarrow> take 4 (String now s) = RestEmoji"
    by (simp add: String_def Sprintf_def suffix_def RestEmoji_def Work_def Rest_def)
  moreover have "100 \<le> minutes now s \<and> 3 \<le> length (fmt_02d (minutes now s))
      \<and> \<not> has_format (icon_spec s) (String now s)"
    if "200 * Minute - Second \<le> 2 * (End s - now)"
    using that minutes_large [OF that] fmt_02d_long [of "minutes now s"]
    by (simp add: has_format_iff)
  moreover have "minutes now s \<le> 0 \<and> seconds now s \<le> 0
      \<and> (minutes now s < 0 \<or> seconds now s < 0)
      \<and> (hd (fmt_02d (minutes now s)) = CHR ''-'' \<or> hd (fmt_02d (seconds now s)) = CHR ''-'')
      \<and> \<not> has_format (icon_spec s) (String now s)"
    if "Second \<le> 2 * (now - End s)"
  proof -
    have "\<not> has_format (icon_spec s) (String now s)"
      using that by (simp add: has_format_iff)
    then show ?thesis
      using fields_late [OF that] fmt_02d_minus by blast
  qed
  ultimately show ?thesis
    using String_in_range [of s now] String_fields [of now s] by blast
qed

theorem String_format_witness:
  "String (boot + Second) (NewPomodoro (flags 25 5) boot Work True) = PauseEmoji @ '' 24:59''
   \<and> String (boot + 3 * Second) (Pause (boot + 2 * Second) (NewPomodoro (flags 25 5) boot Work True))
       = TomatoEmoji @ '' 24:57''
   \<and> String (boot + 5 * Second)
        (Toggle (flags 25 5) (boot + 4 * Second)
          (Pause (boot + 2 * Second) (NewPomodoro (flags 25 5) boot Work True)))
       = RestEmoji @ '' 04:59''
   \<and> 3 \<le> length (fmt_02d (minutes (boot + 1000000) (NewPomodoro (flags 100 5) boot Work True)))
   \<and> \<not> has_format (icon_spec (NewPomodoro (flags 100 5) boot Work True))
         (String (boot + 1000000) (NewPomodoro (flags 100 5) boot Work True))
   \<and> seconds (boot + 13001000)
        (fst (main_loop (flags 1 5) thirteen_decs (NewPomodoro (flags 1 5) boot Work True) [])) \<le> 0
   \<and> \<not> has_format
         (icon_spec (fst (main_loop (flags 1 5) thirteen_decs (NewPomodoro (flags 1 5) boot Work True) [])))
         (String (boot + 13001000)
           (fst (main_loop (flags 1 5) thirteen_decs (NewPomodoro (flags 1 5) boot Work True) [])))"
proof -
  let ?s1 = "NewPomodoro (flags 25 5) boot Work True"
  let ?s2 = "Pause (boot + 2 * Second) ?s1"
  let ?s3 = "Toggle (flags 25 5) (boot + 4 * Second) ?s2"
  let ?s4 = "NewPomodoro (flags 100 5) boot Work True"
  let ?s5 = "fst (main_loop (flags 1 5) thirteen_decs (NewPomodoro (flags 1 5) boot Work True) [])"
  have h1: "Paused ?s1
      \<and> - Second < 2 * (End ?s1 - (boot + Second))
      \<and> 2 * (End ?s1 - (boot + Second)) < 200 * Minute - Second"
    by code_simp
  have h2: "\<not> Paused ?s2 \<and> Status ?s2 = Work
      \<and> - Second < 2 * (End ?s2 - (boot + 3 * Second))
      \<and> 2 * (End ?s2 - (boot + 3 * Second)) < 200 * Minute - Second"
    by code_simp
  have h3: "\<not> Paused ?s3 \<and> Status ?s3 = Rest
      \<and> - Second < 2 * (End ?s3 - (boot + 5 * Second))
      \<and> 2 * (End ?s3 - (boot + 5 * Second)) < 200 * Minute - Second"
    by code_simp
  have h4: "200 * Minute - Second \<le> 2 * (End ?s4 - (boot + 1000000))"
    by code_simp
  have h5: "Second \<le> 2 * (boot + 13001000 - End ?s5)"
    by code_simp
  have r: "Render_spec (boot + Second) ?s1 = PauseEmoji @ '' 24:59''"
    "Render_spec (boot + 3 * Second) ?s2 = TomatoEmoji @ '' 24:57''"
    "Render_spec (boot + 5 * Second) ?s3 = RestEmoji @ '' 04:59''"
    by code_simp+
  have "String (boot + Second) ?s1 = Render_spec (boot + Second) ?s1"
    using String_format [of ?s1 "boot + Second"] h1 by blast
  moreover have "String (boot + 3 * Second) ?s2 = Render_spec (boot + 3 * Second) ?s2"
    using String_format [of ?s2 "boot + 3 * Second"] h2 by blast
  moreover have "String (boot + 5 * Second) ?s3 = Render_spec (boot + 5 * Second) ?s3"
    using String_format [of ?s3 "boot + 5 * Second"] h3 by blast
  moreover have "3 \<le> length (fmt_02d (minutes (boot + 1000000) ?s4))
      \<and> \<not> has_format (icon_spec ?s4) (String (boot + 1000000) ?s4)"
    using String_format [of ?s4 "boot + 1000000"] h4 by blast
  moreover have "seconds (boot + 13001000) ?s5 \<le> 0
      \<and> \<not> has_format (icon_spec ?s5) (String (boot + 13001000) ?s5)"
    using String_format [of ?s5 "boot + 13001000"] h5 by blast
  ultimately show ?thesis
    by (simp only: r) simp
qed

text \<open>
  Claim C5 as stated fails outside that range. Started with \<^verbatim>\<open>-w 100\<close>, the first line
  has three digits of minutes; after the thirteen \<^verbatim>\<open>dec\<close> commands above, the seconds
  carry a minus sign.
\<close>

theorem format_broken:
  "String (boot + 1000000) (NewPomodoro (flags 100 5) boot Work True) = PauseEmoji @ '' 100:00''
   \<and> has_format PauseEmoji (String (boot + 1000000) (NewPomodoro (flags 100 5) boot Work True)) = False
   \<and> has_format PauseEmoji
        (last (snd (main_loop (flags 1 5) thirteen_decs (NewPomodoro (flags 1 5) boot Work True) []))) = False"
  by code_simp

section \<open>Failures at startup\<close>

lemma main_cases:
  "main sys =
     (if RemoveAll_err sys \<noteq> None
      then [flag_Parse, os_RemoveAll SocketPath,
            fmt_Println (''Error removing socket file: '' @ the (RemoveAll_err sys)), return]
      else if ListenUnix_err sys \<noteq> None
      then [flag_Parse, os_RemoveAll SocketPath, net_ListenUnix SocketPath,
            fmt_Println (''Error listening: '' @ the (ListenUnix_err sys)), return]
      else [flag_Parse, os_RemoveAll SocketPath, net_ListenUnix SocketPath,
            defer_listener_Close, defer_os_Remove SocketPath, go_accept_loop,
            call_NewPomodoro Work True, loop_select_and_print])"
  by (auto simp: main_def split: option.splits)

lemma main_B_cases:
  "main_B sys =
     (if RemoveAll_err sys \<noteq> None
      then [call_NewPomodoro Work False, go_Update, os_RemoveAll SocketPath,
            fmt_Println (''Error removing socket file: '' @ the (RemoveAll_err sys)), return]
      else if ListenUnix_err sys \<noteq> None
      then [call_NewPomodoro Work False, go_Update, os_RemoveAll SocketPath,
            net_ListenUnix SocketPath,
            fmt_Println (''Error listening: '' @ the (ListenUnix_err sys)), return]
      else [call_NewPomodoro Work False, go_Update, os_RemoveAll SocketPath,
            net_ListenUnix SocketPath, defer_listener_Close, go_accept_loop,
            loop_print_and_sleep])"
  by (auto simp: main_B_def split: option.splits)

text \<open>
  Claim C8, as the code has it. In both variants \<^verbatim>\<open>main\<close> removes the socket path before
  it binds it. When the removal or the bind fails, \<^verbatim>\<open>main\<close> prints the error and returns.
  Variant A has then neither created the timer state nor entered its loop. Variant B
  has created the timer state and started the goroutine \<^verbatim>\<open>Update\<close> before the removal;
  it returns without starting the accept loop or the loop that prints.
\<close>

theorem startup_failure:
  "(net_ListenUnix SocketPath \<in> set (main sys) \<longrightarrow>
      os_RemoveAll SocketPath \<in> set (takeWhile (\<lambda>a. a \<noteq> net_ListenUnix SocketPath) (main sys)))
   \<and> (net_ListenUnix SocketPath \<in> set (main_B sys) \<longrightarrow>
      os_RemoveAll SocketPath \<in> set (takeWhile (\<lambda>a. a \<noteq> net_ListenUnix SocketPath) (main_B sys)))
   \<and> (RemoveAll_err sys \<noteq> None \<or> ListenUnix_err sys \<noteq> None \<longrightarrow>
      list_ex is_report (main sys) \<and> last (main sys) = return
      \<and> \<not> list_ex starts_scheduler_or_render (main sys)
      \<and> call_NewPomodoro Work True \<notin> set (main sys)
      \<and> list_ex is_report (main_B sys) \<and> last (main_B sys) = return
      \<and> \<not> list_ex starts_render (main_B sys)
      \<and> go_accept_loop \<notin> set (main_B sys)
      \<and> take 3 (main_B sys) = [call_NewPomodoro Work False, go_Update, os_RemoveAll SocketPath])"
  by (simp add: main_cases main_B_cases)

theorem startup_failure_witness:
  "os_RemoveAll SocketPath
     \<in> set (takeWhile (\<lambda>a. a \<noteq> net_ListenUnix SocketPath)
         (main \<lparr>RemoveAll_err = None, ListenUnix_err = Some ''address already in use''\<rparr>))
   \<and> os_RemoveAll SocketPath
     \<in> set (takeWhile (\<lambda>a. a \<noteq> net_ListenUnix SocketPath)
         (main_B \<lparr>RemoveAll_err = None, ListenUnix_err = Some ''address already in use''\<rparr>))
   \<and> last (main \<lparr>RemoveAll_err = None, ListenUnix_err = Some ''address already in use''\<rparr>) = return
   \<and> \<not> list_ex starts_scheduler_or_render
         (main \<lparr>RemoveAll_err = None, ListenUnix_err = Some ''address already in use''\<rparr>)
   \<and> last (main_B \<lparr>RemoveAll_err = None, ListenUnix_err = Some ''address already in use''\<rparr>) = return
   \<and> \<not> list_ex starts_render
         (main_B \<lparr>RemoveAll_err = None, ListenUnix_err = Some ''address already in use''\<rparr>)"
proof -
  let ?sys = "\<lparr>RemoveAll_err = None, ListenUnix_err = Some ''address already in use''\<rparr>"
  have "net_ListenUnix SocketPath \<in> set (main ?sys)"
    "net_ListenUnix SocketPath \<in> set (main_B ?sys)"
    "RemoveAll_err ?sys \<noteq> None \<or> ListenUnix_err ?sys \<noteq> None"
    by (simp_all add: main_def main_B_def)
  with startup_failure [of ?sys] show ?thesis
    by blast
qed

text \<open>
  Claim C8 as stated fails on variant B: when the removal fails, the scheduler
  \<^verbatim>\<open>Update\<close> is already running.
\<close>

theorem scheduler_started_before_failure:
  "main_B \<lparr>RemoveAll_err = Some ''operation not permitted'', ListenUnix_err = None\<rparr>
     = [call_NewPomodoro Work False, go_Update, os_RemoveAll SocketPath,
        fmt_Println ''Error removing socket file: operation not permitted'', return]
   \<and> list_ex starts_scheduler_or_render
        (main_B \<lparr>RemoveAll_err = Some ''operation not permitted'', ListenUnix_err = None\<rparr>)"
  by (simp add: main_B_def)

end
